theory Spec2Isabelle
  imports Main "HOL-Library.Word"
begin

section \<open>Data model of \<open>WebStreamer/utils/custom_dl.py\<close>\<close>

text \<open>
  The byte-delivery engine \<open>ByteStreamer\<close> is embedded with explicit state passing.
  Every call to the remote protocol client (hydrogram) is a field of an environment
  record; the answer of a call may depend on the moment it is made, which is the number
  of upstream calls logged so far. Exceptions are values of the type \<open>error\<close>.
\<close>

type_synonym bytes = "8 word list"

datatype error =
    TimeoutError
  | AttributeError
  | OSError
  | AuthBytesInvalid
  | VolumeLocNotFound
  | CDNFileHashMismatch
  | OverflowError
  | KeyError
  | ValueError
  | GeneratorExit
  | OtherError string

text \<open>
  Python's \<open>TimeoutError\<close> is a subclass of \<open>OSError\<close>; the constructor \<open>OSError\<close>
  stands for every other instance of \<open>OSError\<close>.
\<close>

subsection \<open>Python slices and dictionaries\<close>

definition py_clamp :: "int \<Rightarrow> nat \<Rightarrow> nat" where
  "py_clamp i n =
     (if i < 0 then (if i + int n < 0 then 0 else nat (i + int n))
      else min (nat i) n)"

text \<open>\<open>xs[lo:hi]\<close>, with \<open>None\<close> for an omitted bound.\<close>

definition py_slice :: "int option \<Rightarrow> int option \<Rightarrow> 'a list \<Rightarrow> 'a list" where
  "py_slice lo hi xs =
     (let n = length xs;
          l = (case lo of None \<Rightarrow> 0 | Some i \<Rightarrow> py_clamp i n);
          h = (case hi of None \<Rightarrow> n | Some j \<Rightarrow> py_clamp j n)
      in take (h - l) (drop l xs))"

text \<open>
  A \<open>dict\<close> keeps its keys in insertion order, and \<open>min\<close> iterates in that order, so
  the workload table is an association list with distinct keys.
\<close>

type_synonym ('k, 'v) dict = "('k \<times> 'v) list"

definition dict_get :: "('k, 'v) dict \<Rightarrow> 'k \<Rightarrow> 'v option" where
  "dict_get d k = map_of d k"

fun dict_set :: "('k, 'v) dict \<Rightarrow> 'k \<Rightarrow> 'v \<Rightarrow> ('k, 'v) dict" where
  "dict_set [] k v = [(k, v)]"
| "dict_set ((k', v') # d) k v =
     (if k' = k then (k, v) # d else (k', v') # dict_set d k v)"

text \<open>
  \<open>min(work_loads, key=work_loads.get)\<close>: the builtin keeps the first item and replaces
  it only by an item whose key value is strictly smaller; on an empty dict it raises
  \<open>ValueError\<close>.
\<close>

fun min_scan :: "int \<times> int \<Rightarrow> (int, int) dict \<Rightarrow> int \<times> int" where
  "min_scan best [] = best"
| "min_scan best ((k, v) # rest) =
     (if v < snd best then min_scan (k, v) rest else min_scan best rest)"

fun py_min_key :: "(int, int) dict \<Rightarrow> error + int" where
  "py_min_key [] = Inl ValueError"
| "py_min_key ((k, v) # rest) = Inr (fst (min_scan (k, v) rest))"

subsection \<open>Descriptors, locations, sessions\<close>

datatype FileType =
  THUMBNAIL | CHAT_PHOTO | PHOTO | VOICE | VIDEO | DOCUMENT | STICKER | AUDIO | ANIMATION

datatype ThumbnailSource =
  LEGACY | TS_THUMBNAIL | CHAT_PHOTO_SMALL | CHAT_PHOTO_BIG | STICKER_SET_THUMBNAIL

record FileId =
  dc_id :: int
  media_id :: int
  access_hash :: int
  file_reference :: bytes
  file_type :: FileType
  thumbnail_size :: string
  thumbnail_source :: ThumbnailSource
  chat_id :: int
  chat_access_hash :: int
  index :: int

datatype peer =
    InputPeerUser int int
  | InputPeerChat int
  | InputPeerChannel int int

datatype location =
    InputPeerPhotoFileLocation peer int bool
  | InputPhotoFileLocation int int bytes string
  | InputDocumentFileLocation int int bytes string

datatype upload_result =
    File bytes
  | FileCdnRedirect int bytes bytes bytes
  | OtherResult

datatype cdn_result =
    CdnFile bytes
  | CdnFileReuploadNeeded bytes
  | CdnOther

record FileHash =
  fh_offset :: int
  limit :: int
  hash :: bytes

record session =
  sess_dc :: int
  sess_cdn :: bool
  is_started :: bool
  stop_calls :: nat

record client =
  home_dc :: int
  media_sessions :: "int \<rightharpoonup> nat"

datatype call =
    CallGetFileIds nat string
  | CallAuthCreate int
  | CallSessionStart nat
  | CallSessionStop nat
  | CallExportAuthorization int
  | CallImportAuthorization nat
  | CallGetFile nat int int
  | CallGetCdnFile nat int int
  | CallReuploadCdnFile nat
  | CallGetCdnFileHashes nat int

text \<open>
  The environment: one field per upstream operation, each taking the moment of the call
  first. \<open>env_get_file_ids\<close> is \<open>file_properties.get_file_ids\<close>, the metadata lookup;
  \<open>env_get_channel_id\<close>, \<open>env_sha256\<close> and \<open>env_ctr256_decrypt\<close> are the library
  functions \<open>utils.get_channel_id\<close>, \<open>hashlib.sha256\<close> and \<open>aes.ctr256_decrypt\<close>.
\<close>

record env =
  env_get_file_ids :: "nat \<Rightarrow> nat \<Rightarrow> string \<Rightarrow> int \<Rightarrow> error + FileId"
  env_get_channel_id :: "int \<Rightarrow> int"
  env_auth_create :: "nat \<Rightarrow> int \<Rightarrow> error + bytes"
  env_session_start :: "nat \<Rightarrow> nat \<Rightarrow> error + unit"
  env_export_authorization :: "nat \<Rightarrow> int \<Rightarrow> error + int \<times> bytes"
  env_import_authorization :: "nat \<Rightarrow> nat \<Rightarrow> int \<times> bytes \<Rightarrow> error + unit"
  env_get_file :: "nat \<Rightarrow> location \<Rightarrow> int \<Rightarrow> int \<Rightarrow> error + upload_result"
  env_get_cdn_file :: "nat \<Rightarrow> bytes \<Rightarrow> int \<Rightarrow> int \<Rightarrow> error + cdn_result"
  env_reupload_cdn_file :: "nat \<Rightarrow> bytes \<Rightarrow> bytes \<Rightarrow> error + unit"
  env_get_cdn_file_hashes :: "nat \<Rightarrow> bytes \<Rightarrow> int \<Rightarrow> error + FileHash list"
  env_sha256 :: "bytes \<Rightarrow> bytes"
  env_ctr256_decrypt :: "bytes \<Rightarrow> bytes \<Rightarrow> bytes \<Rightarrow> bytes"

text \<open>
  The shared state: the module-level tables \<open>work_loads\<close> and \<open>cdn_count\<close>, the
  descriptor cache of the \<open>ByteStreamer\<close>, the client and session objects (stores
  indexed by object reference), and the log of upstream calls.
\<close>

record state =
  work_loads :: "(int, int) dict"
  cdn_count :: "(int, int) dict"
  cached_file_ids :: "string \<rightharpoonup> FileId"
  clients :: "nat \<Rightarrow> client"
  sessions :: "nat \<Rightarrow> session"
  next_session :: nat
  calls :: "call list"

definition now :: "state \<Rightarrow> nat" where
  "now s = length (calls s)"

definition logged :: "call \<Rightarrow> state \<Rightarrow> state" where
  "logged c s = s\<lparr>calls := calls s @ [c]\<rparr>"

section \<open>File descriptor resolver\<close>

definition get_file_ids ::
  "env \<Rightarrow> nat \<Rightarrow> string \<Rightarrow> int \<Rightarrow> state \<Rightarrow> (error + FileId) \<times> state" where
  "get_file_ids ev cl db_id idx s =
     (env_get_file_ids ev (now s) cl db_id idx, logged (CallGetFileIds cl db_id) s)"

definition cache_read :: "string \<Rightarrow> state \<Rightarrow> (error + FileId) \<times> state" where
  "cache_read db_id s =
     (case cached_file_ids s db_id of None \<Rightarrow> (Inl KeyError, s) | Some d \<Rightarrow> (Inr d, s))"

definition generate_file_properties ::
  "env \<Rightarrow> string \<Rightarrow> (int \<rightharpoonup> nat) \<Rightarrow> state \<Rightarrow> (error + FileId) \<times> state" where
  "generate_file_properties ev db_id multi_clients s =
     (case py_min_key (work_loads s) of
        Inl e \<Rightarrow> (Inl e, s)
      | Inr idx \<Rightarrow>
          (case multi_clients idx of
             None \<Rightarrow> (Inl KeyError, s)
           | Some cl \<Rightarrow>
               (case get_file_ids ev cl db_id idx s of
                  (Inl e, s1) \<Rightarrow> (Inl e, s1)
                | (Inr file_id, s1) \<Rightarrow>
                    cache_read db_id
                      (s1\<lparr>cached_file_ids := (cached_file_ids s1)(db_id \<mapsto> file_id)\<rparr>))))"

definition get_file_properties ::
  "env \<Rightarrow> string \<Rightarrow> (int \<rightharpoonup> nat) \<Rightarrow> state \<Rightarrow> (error + FileId) \<times> state" where
  "get_file_properties ev db_id multi_clients s =
     (if cached_file_ids s db_id = None then
        (case generate_file_properties ev db_id multi_clients s of
           (Inl e, s1) \<Rightarrow> (Inl e, s1)
         | (Inr _, s1) \<Rightarrow> cache_read db_id s1)
      else cache_read db_id s)"

section \<open>Session manager\<close>

text \<open>
  \<open>Session(...)\<close> allocates a fresh session object; \<open>start\<close> may fail, \<open>stop\<close> returns.
  Reading \<open>client.storage\<close> (\<open>dc_id\<close>, \<open>test_mode\<close>, \<open>auth_key\<close>) is local and does not fail.
\<close>

definition new_session :: "int \<Rightarrow> bool \<Rightarrow> state \<Rightarrow> nat \<times> state" where
  "new_session dc cdn s =
     (next_session s,
      s\<lparr>sessions := (sessions s)(next_session s :=
            \<lparr>sess_dc = dc, sess_cdn = cdn, is_started = False, stop_calls = 0\<rparr>),
        next_session := Suc (next_session s)\<rparr>)"

definition session_start :: "env \<Rightarrow> nat \<Rightarrow> state \<Rightarrow> (error + unit) \<times> state" where
  "session_start ev sid s =
     (case env_session_start ev (now s) sid of
        Inl e \<Rightarrow> (Inl e, logged (CallSessionStart sid) s)
      | Inr u \<Rightarrow>
          (Inr u, logged (CallSessionStart sid)
             (s\<lparr>sessions := (sessions s)(sid := (sessions s sid)\<lparr>is_started := True\<rparr>)\<rparr>)))"

definition session_stop :: "nat \<Rightarrow> state \<Rightarrow> state" where
  "session_stop sid s =
     logged (CallSessionStop sid)
       (s\<lparr>sessions := (sessions s)(sid := (sessions s sid)
             \<lparr>is_started := False, stop_calls := Suc (stop_calls (sessions s sid))\<rparr>)\<rparr>)"

definition auth_create :: "env \<Rightarrow> int \<Rightarrow> state \<Rightarrow> (error + bytes) \<times> state" where
  "auth_create ev dc s = (env_auth_create ev (now s) dc, logged (CallAuthCreate dc) s)"

definition export_authorization ::
  "env \<Rightarrow> int \<Rightarrow> state \<Rightarrow> (error + int \<times> bytes) \<times> state" where
  "export_authorization ev dc s =
     (env_export_authorization ev (now s) dc, logged (CallExportAuthorization dc) s)"

definition import_authorization ::
  "env \<Rightarrow> nat \<Rightarrow> int \<times> bytes \<Rightarrow> state \<Rightarrow> (error + unit) \<times> state" where
  "import_authorization ev sid exported s =
     (env_import_authorization ev (now s) sid exported, logged (CallImportAuthorization sid) s)"

text \<open>\<open>client.media_sessions.pop(dc, None)\<close> and \<open>client.media_sessions[dc] = session\<close>.\<close>

definition pop_media_session :: "nat \<Rightarrow> int \<Rightarrow> state \<Rightarrow> state" where
  "pop_media_session cl dc s =
     s\<lparr>clients := (clients s)(cl := (clients s cl)
          \<lparr>media_sessions := (media_sessions (clients s cl))(dc := None)\<rparr>)\<rparr>"

definition register_media_session :: "nat \<Rightarrow> int \<Rightarrow> nat \<Rightarrow> state \<Rightarrow> state" where
  "register_media_session cl dc sid s =
     s\<lparr>clients := (clients s)(cl := (clients s cl)
          \<lparr>media_sessions := (media_sessions (clients s cl))(dc \<mapsto> sid)\<rparr>)\<rparr>"

text \<open>
  The loop \<open>for _ in range(6)\<close> with its \<open>else\<close> branch; the first argument is the
  number of iterations left.
\<close>

fun import_loop ::
  "nat \<Rightarrow> env \<Rightarrow> int \<Rightarrow> nat \<Rightarrow> state \<Rightarrow> (error + unit) \<times> state" where
  "import_loop 0 ev dc sid s = (Inl AuthBytesInvalid, session_stop sid s)"
| "import_loop (Suc n) ev dc sid s =
     (case export_authorization ev dc s of
        (Inl e, s1) \<Rightarrow> (Inl e, s1)
      | (Inr exported, s1) \<Rightarrow>
          (case import_authorization ev sid exported s1 of
             (Inr u, s2) \<Rightarrow> (Inr u, s2)
           | (Inl e, s2) \<Rightarrow>
               if e = AuthBytesInvalid then import_loop n ev dc sid s2 else (Inl e, s2)))"

definition drop_disconnected :: "nat \<Rightarrow> int \<Rightarrow> state \<Rightarrow> nat option \<times> state" where
  "drop_disconnected cl dc s =
     (case media_sessions (clients s cl) dc of
        None \<Rightarrow> (None, s)
      | Some sid \<Rightarrow>
          if \<not> is_started (sessions s sid)
          then (None, session_stop sid (pop_media_session cl dc s))
          else (Some sid, s))"

definition create_media_session ::
  "env \<Rightarrow> nat \<Rightarrow> int \<Rightarrow> state \<Rightarrow> (error + nat) \<times> state" where
  "create_media_session ev cl dc s =
     (if dc \<noteq> home_dc (clients s cl) then
        (case auth_create ev dc s of
           (Inl e, s1) \<Rightarrow> (Inl e, s1)
         | (Inr key, s1) \<Rightarrow>
             (case new_session dc False s1 of
                (sid, s2) \<Rightarrow>
                  (case session_start ev sid s2 of
                     (Inl e, s3) \<Rightarrow> (Inl e, s3)
                   | (Inr u, s3) \<Rightarrow>
                       (case import_loop 6 ev dc sid s3 of
                          (Inl e, s4) \<Rightarrow> (Inl e, s4)
                        | (Inr u', s4) \<Rightarrow> (Inr sid, register_media_session cl dc sid s4)))))
      else
        (case new_session dc False s of
           (sid, s1) \<Rightarrow>
             (case session_start ev sid s1 of
                (Inl e, s2) \<Rightarrow> (Inl e, s2)
              | (Inr u, s2) \<Rightarrow> (Inr sid, register_media_session cl dc sid s2))))"

definition generate_media_session ::
  "env \<Rightarrow> nat \<Rightarrow> FileId \<Rightarrow> state \<Rightarrow> (error + nat) \<times> state" where
  "generate_media_session ev cl file_id s =
     (case drop_disconnected cl (dc_id file_id) s of
        (Some sid, s1) \<Rightarrow> (Inr sid, s1)
      | (None, s1) \<Rightarrow> create_media_session ev cl (dc_id file_id) s1)"

section \<open>Chunk streaming pipeline\<close>

definition get_location :: "env \<Rightarrow> FileId \<Rightarrow> location" where
  "get_location ev file_id =
     (if file_type file_id = CHAT_PHOTO then
        InputPeerPhotoFileLocation
          (if chat_id file_id > 0
           then InputPeerUser (chat_id file_id) (chat_access_hash file_id)
           else if chat_access_hash file_id = 0
           then InputPeerChat (- chat_id file_id)
           else InputPeerChannel (env_get_channel_id ev (chat_id file_id))
                  (chat_access_hash file_id))
          (media_id file_id)
          (thumbnail_source file_id = CHAT_PHOTO_BIG)
      else if file_type file_id = PHOTO then
        InputPhotoFileLocation (media_id file_id) (access_hash file_id)
          (file_reference file_id) (thumbnail_size file_id)
      else
        InputDocumentFileLocation (media_id file_id) (access_hash file_id)
          (file_reference file_id) (thumbnail_size file_id))"

definition invoke_get_file ::
  "env \<Rightarrow> nat \<Rightarrow> location \<Rightarrow> int \<Rightarrow> int \<Rightarrow> state \<Rightarrow> (error + upload_result) \<times> state" where
  "invoke_get_file ev ms loc offset lim s =
     (env_get_file ev (now s) loc offset lim, logged (CallGetFile ms offset lim) s)"

definition invoke_get_cdn_file ::
  "env \<Rightarrow> nat \<Rightarrow> bytes \<Rightarrow> int \<Rightarrow> int \<Rightarrow> state \<Rightarrow> (error + cdn_result) \<times> state" where
  "invoke_get_cdn_file ev cs token offset lim s =
     (env_get_cdn_file ev (now s) token offset lim, logged (CallGetCdnFile cs offset lim) s)"

definition invoke_reupload_cdn_file ::
  "env \<Rightarrow> nat \<Rightarrow> bytes \<Rightarrow> bytes \<Rightarrow> state \<Rightarrow> (error + unit) \<times> state" where
  "invoke_reupload_cdn_file ev ms token request_token s =
     (env_reupload_cdn_file ev (now s) token request_token, logged (CallReuploadCdnFile ms) s)"

definition invoke_get_cdn_file_hashes ::
  "env \<Rightarrow> nat \<Rightarrow> bytes \<Rightarrow> int \<Rightarrow> state \<Rightarrow> (error + FileHash list) \<times> state" where
  "invoke_get_cdn_file_hashes ev ms token offset s =
     (env_get_cdn_file_hashes ev (now s) token offset, logged (CallGetCdnFileHashes ms offset) s)"

text \<open>
  The consumer of the generator: \<open>None\<close> iterates to exhaustion, \<open>Some n\<close> closes the
  generator once it has received \<open>n\<close> chunks, which raises \<open>GeneratorExit\<close> at the
  \<open>yield\<close> that produced the \<open>n\<close>-th chunk.
\<close>

type_synonym consumer = "nat option"

definition closes_after :: "consumer \<Rightarrow> nat \<Rightarrow> bool" where
  "closes_after c n = (c = Some n)"

text \<open>
  The result of a block: the exception leaving it (\<open>None\<close> when it ends normally), the
  chunks yielded so far, and the state.
\<close>

type_synonym block_result = "error option \<times> bytes list \<times> state"

function direct_loop ::
  "env \<Rightarrow> consumer \<Rightarrow> nat \<Rightarrow> location \<Rightarrow> int \<Rightarrow> int \<Rightarrow> int \<Rightarrow> int \<Rightarrow>
   upload_result \<Rightarrow> int \<Rightarrow> int \<Rightarrow> bytes list \<Rightarrow> state \<Rightarrow> block_result" where
  "direct_loop ev con ms loc first_part_cut last_part_cut part_count chunk_size
     r current_part offset ys s =
     (case r of
        File chunk \<Rightarrow>
          if chunk = [] then (None, ys, s)
          else
            let y = (if part_count = 1
                       then py_slice (Some first_part_cut) (Some last_part_cut) chunk
                     else if current_part = 1
                       then py_slice (Some first_part_cut) None chunk
                     else if current_part = part_count
                       then py_slice None (Some last_part_cut) chunk
                     else chunk)
            in if closes_after con (Suc (length ys)) then (Some GeneratorExit, ys @ [y], s)
               else if current_part + 1 > part_count then (None, ys @ [y], s)
               else
                 (case invoke_get_file ev ms loc (offset + chunk_size) chunk_size s of
                    (Inl e, s1) \<Rightarrow> (Some e, ys @ [y], s1)
                  | (Inr r1, s1) \<Rightarrow>
                      direct_loop ev con ms loc first_part_cut last_part_cut part_count
                        chunk_size r1 (current_part + 1) (offset + chunk_size) (ys @ [y]) s1)
      | FileCdnRedirect d t k iv \<Rightarrow> (Some AttributeError, ys, s)
      | OtherResult \<Rightarrow> (Some AttributeError, ys, s))"
  by pat_completeness auto
termination
  by (relation "measure (\<lambda>(ev, con, ms, loc, fpc, lpc, part_count, cs, r, current_part, rest).
        nat (part_count + 1 - current_part))") auto

declare direct_loop.simps [simp del]

subsection \<open>The CDN branch\<close>

text \<open>\<open>n.to_bytes(4, "big")\<close> raises \<open>OverflowError\<close> outside \<open>0 .. 2^32 - 1\<close>.\<close>

definition to_bytes4 :: "int \<Rightarrow> error + bytes" where
  "to_bytes4 n =
     (if n < 0 \<or> n \<ge> 2 ^ 32 then Inl OverflowError
      else Inr [word_of_int (n div 2 ^ 24), word_of_int (n div 2 ^ 16),
                word_of_int (n div 2 ^ 8), word_of_int n])"

definition cdn_iv :: "bytes \<Rightarrow> int \<Rightarrow> error + bytes" where
  "cdn_iv encryption_iv offset =
     (case to_bytes4 (offset div 16) of
        Inl e \<Rightarrow> Inl e
      | Inr b \<Rightarrow> Inr (py_slice None (Some (- 4)) encryption_iv @ b))"

text \<open>
  The loop \<open>for i, h in enumerate(hashes)\<close>: \<open>True\<close> when every check passes, \<open>False\<close>
  when \<open>CDNFileHashMismatch.check\<close> raises at some segment.
\<close>

fun check_hashes :: "(bytes \<Rightarrow> bytes) \<Rightarrow> bytes \<Rightarrow> nat \<Rightarrow> FileHash list \<Rightarrow> bool" where
  "check_hashes sha decrypted_chunk i [] = True"
| "check_hashes sha decrypted_chunk i (h # hs) =
     (if hash h = sha (py_slice (Some (limit h * int i)) (Some (limit h * (int i + 1)))
                         decrypted_chunk)
      then check_hashes sha decrypted_chunk (Suc i) hs
      else False)"

text \<open>
  The loop \<open>while True\<close> of the CDN branch. A "reupload needed" answer can repeat
  without bound, so the loop takes fuel: one unit per iteration, \<open>None\<close> when it runs out.
\<close>

fun cdn_loop ::
  "nat \<Rightarrow> env \<Rightarrow> consumer \<Rightarrow> nat \<Rightarrow> nat \<Rightarrow> bytes \<Rightarrow> bytes \<Rightarrow> bytes \<Rightarrow> int \<Rightarrow> int \<Rightarrow> int \<Rightarrow> int \<Rightarrow>
   int \<Rightarrow> int \<Rightarrow> bytes list \<Rightarrow> state \<Rightarrow> block_result option" where
  "cdn_loop 0 ev con ms cs token key iv first_part_cut last_part_cut part_count chunk_size
     current_part offset ys s = None"
| "cdn_loop (Suc fuel) ev con ms cs token key iv first_part_cut last_part_cut part_count
     chunk_size current_part offset ys s =
     (case invoke_get_cdn_file ev cs token offset chunk_size s of
        (Inl e, s1) \<Rightarrow> Some (Some e, ys, s1)
      | (Inr (CdnFileReuploadNeeded request_token), s1) \<Rightarrow>
          (case invoke_reupload_cdn_file ev ms token request_token s1 of
             (Inl e, s2) \<Rightarrow>
               if e = VolumeLocNotFound then Some (None, ys, s2) else Some (Some e, ys, s2)
           | (Inr u, s2) \<Rightarrow>
               cdn_loop fuel ev con ms cs token key iv first_part_cut last_part_cut part_count
                 chunk_size current_part offset ys s2)
      | (Inr CdnOther, s1) \<Rightarrow> Some (Some AttributeError, ys, s1)
      | (Inr (CdnFile chunk), s1) \<Rightarrow>
          (case cdn_iv iv offset of
             Inl e \<Rightarrow> Some (Some e, ys, s1)
           | Inr iv1 \<Rightarrow>
               let decrypted_chunk = env_ctr256_decrypt ev chunk key iv1 in
               (case invoke_get_cdn_file_hashes ev ms token offset s1 of
                  (Inl e, s2) \<Rightarrow> Some (Some e, ys, s2)
                | (Inr hashes, s2) \<Rightarrow>
                    if \<not> check_hashes (env_sha256 ev) decrypted_chunk 0 hashes
                      then Some (Some CDNFileHashMismatch, ys, s2)
                    else if decrypted_chunk = [] then Some (None, ys, s2)
                    else
                      let y = (if part_count = 1
                                 then py_slice (Some first_part_cut) (Some last_part_cut)
                                        decrypted_chunk
                               else if current_part = 1
                                 then py_slice (Some first_part_cut) None decrypted_chunk
                               else if current_part = part_count
                                 then py_slice None (Some last_part_cut) decrypted_chunk
                               else decrypted_chunk)
                      in if closes_after con (Suc (length ys))
                           then Some (Some GeneratorExit, ys @ [y], s2)
                         else if current_part + 1 > part_count then Some (None, ys @ [y], s2)
                         else cdn_loop fuel ev con ms cs token key iv first_part_cut
                                last_part_cut part_count chunk_size (current_part + 1)
                                (offset + chunk_size) (ys @ [y]) s2)))"

text \<open>
  The branch \<open>elif isinstance(r, FileCdnRedirect)\<close>: the counter \<open>cdn_count\<close>, the
  request-scoped CDN session, and the inner \<open>try ... except Exception as e: raise e
  finally: await cdn_session.stop()\<close>. The handler re-raises what it caught, so only the
  \<open>finally\<close> changes the result of the block.
\<close>

definition bump_cdn_count :: "int \<Rightarrow> state \<Rightarrow> state" where
  "bump_cdn_count idx s =
     s\<lparr>cdn_count := dict_set (cdn_count s) idx
          (case dict_get (cdn_count s) idx of Some c \<Rightarrow> c + 1 | None \<Rightarrow> 1)\<rparr>"

definition cdn_finally :: "nat \<Rightarrow> block_result \<Rightarrow> block_result" where
  "cdn_finally cs res = (case res of (exc, ys, s) \<Rightarrow> (exc, ys, session_stop cs s))"

definition cdn_branch ::
  "nat \<Rightarrow> env \<Rightarrow> consumer \<Rightarrow> nat \<Rightarrow> int \<Rightarrow> int \<Rightarrow> bytes \<Rightarrow> bytes \<Rightarrow> bytes \<Rightarrow> int \<Rightarrow> int \<Rightarrow> int \<Rightarrow>
   int \<Rightarrow> int \<Rightarrow> state \<Rightarrow> block_result option" where
  "cdn_branch fuel ev con ms idx r_dc token key iv first_part_cut last_part_cut part_count
     chunk_size offset s =
     (case auth_create ev r_dc (bump_cdn_count idx s) of
        (Inl e, s1) \<Rightarrow> Some (Some e, [], s1)
      | (Inr k, s1) \<Rightarrow>
          (case new_session r_dc True s1 of
             (cs, s2) \<Rightarrow>
               map_option (cdn_finally cs)
                 (case session_start ev cs s2 of
                    (Inl e, s3) \<Rightarrow> Some (Some e, [], s3)
                  | (Inr u, s3) \<Rightarrow>
                      cdn_loop fuel ev con ms cs token key iv first_part_cut last_part_cut
                        part_count chunk_size 1 offset [] s3)))"

subsection \<open>\<open>yield_file\<close>\<close>

text \<open>The body of the outer \<open>try\<close>.\<close>

definition stream_body ::
  "nat \<Rightarrow> env \<Rightarrow> consumer \<Rightarrow> nat \<Rightarrow> int \<Rightarrow> location \<Rightarrow> int \<Rightarrow> int \<Rightarrow> int \<Rightarrow> int \<Rightarrow> int \<Rightarrow>
   state \<Rightarrow> block_result option" where
  "stream_body fuel ev con ms idx loc offset first_part_cut last_part_cut part_count
     chunk_size s =
     (case invoke_get_file ev ms loc offset chunk_size s of
        (Inl e, s1) \<Rightarrow> Some (Some e, [], s1)
      | (Inr r, s1) \<Rightarrow>
          (case r of
             File b \<Rightarrow>
               Some (direct_loop ev con ms loc first_part_cut last_part_cut part_count
                       chunk_size r 1 offset [] s1)
           | FileCdnRedirect r_dc token key iv \<Rightarrow>
               cdn_branch fuel ev con ms idx r_dc token key iv first_part_cut last_part_cut
                 part_count chunk_size offset s1
           | OtherResult \<Rightarrow> Some (None, [], s1)))"

text \<open>
  The handlers of the outer \<open>try\<close>: \<open>except (TimeoutError, AttributeError): pass\<close>, then
  \<open>except OSError\<close>, which removes and stops the media session and re-raises.
\<close>

definition stream_handlers :: "nat \<Rightarrow> nat \<Rightarrow> int \<Rightarrow> block_result \<Rightarrow> block_result" where
  "stream_handlers cl ms dc res =
     (case res of (exc, ys, s) \<Rightarrow>
        (case exc of
           None \<Rightarrow> (None, ys, s)
         | Some e \<Rightarrow>
             if e = TimeoutError \<or> e = AttributeError then (None, ys, s)
             else if e = OSError
               then (Some OSError, ys, session_stop ms (pop_media_session cl dc s))
             else (Some e, ys, s)))"

text \<open>The outer \<open>finally\<close>: \<open>work_loads[file_id.index] -= 1\<close>.\<close>

definition stream_finally :: "int \<Rightarrow> block_result \<Rightarrow> block_result" where
  "stream_finally idx res =
     (case res of (exc, ys, s) \<Rightarrow>
        (case dict_get (work_loads s) idx of
           None \<Rightarrow> (Some KeyError, ys, s)
         | Some w \<Rightarrow> (exc, ys, s\<lparr>work_loads := dict_set (work_loads s) idx (w - 1)\<rparr>)))"

definition yield_file ::
  "nat \<Rightarrow> env \<Rightarrow> consumer \<Rightarrow> FileId \<Rightarrow> int \<Rightarrow> int \<Rightarrow> int \<Rightarrow> int \<Rightarrow> int \<Rightarrow> (int \<rightharpoonup> nat) \<Rightarrow>
   state \<Rightarrow> block_result option" where
  "yield_file fuel ev con file_id offset first_part_cut last_part_cut part_count chunk_size
     multi_clients s =
     (case multi_clients (index file_id) of
        None \<Rightarrow> Some (Some KeyError, [], s)
      | Some cl \<Rightarrow>
          (case dict_get (work_loads s) (index file_id) of
             None \<Rightarrow> Some (Some KeyError, [], s)
           | Some w \<Rightarrow>
               (case generate_media_session ev cl file_id
                       (s\<lparr>work_loads := dict_set (work_loads s) (index file_id) (w + 1)\<rparr>) of
                  (Inl e, s1) \<Rightarrow> Some (Some e, [], s1)
                | (Inr ms, s1) \<Rightarrow>
                    map_option
                      (\<lambda>res. stream_finally (index file_id)
                                (stream_handlers cl ms (dc_id file_id) res))
                      (stream_body fuel ev con ms (index file_id) (get_location ev file_id)
                         offset first_part_cut last_part_cut part_count chunk_size s1))))"

section \<open>Specification-level definitions\<close>

text \<open>
  The selection rule in the words of the specification: among the connections whose
  workload is the minimum, the lowest connection index.
\<close>

definition spec_least_loaded :: "(int, int) dict \<Rightarrow> int" where
  "spec_least_loaded d =
     (let m = Min (set (map snd d))
      in Min (set (map fst (filter (\<lambda>p. snd p = m) d))))"

text \<open>
  The answer to the \<open>k\<close>-th import attempt of a retry loop that starts at moment \<open>t\<close>:
  attempt \<open>k\<close> exports at \<open>t + 2 k\<close> and imports at \<open>t + 2 k + 1\<close>.
\<close>

definition import_answer :: "env \<Rightarrow> nat \<Rightarrow> int \<Rightarrow> nat \<Rightarrow> nat \<Rightarrow> error + unit" where
  "import_answer ev t dc sid k =
     (case env_export_authorization ev (t + 2 * k) dc of
        Inl e \<Rightarrow> Inl e
      | Inr x \<Rightarrow> env_import_authorization ev (t + 2 * k + 1) sid x)"

definition export_ok :: "env \<Rightarrow> nat \<Rightarrow> int \<Rightarrow> nat \<Rightarrow> bool" where
  "export_ok ev t dc k =
     (case env_export_authorization ev (t + 2 * k) dc of Inl e \<Rightarrow> False | Inr x \<Rightarrow> True)"

definition attempt_calls :: "int \<Rightarrow> nat \<Rightarrow> nat \<Rightarrow> call list" where
  "attempt_calls dc sid n =
     concat (replicate n [CallExportAuthorization dc, CallImportAuthorization sid])"

text \<open>
  The slicing policy in the words of the specification, for the 1-indexed part \<open>part\<close>
  of \<open>part_count\<close>, and the chunks a stream is expected to yield from the list of the
  chunks it fetched.
\<close>

definition slice_policy :: "int \<Rightarrow> int \<Rightarrow> int \<Rightarrow> int \<Rightarrow> bytes \<Rightarrow> bytes" where
  "slice_policy first_cut last_cut part_count part chunk =
     (if part_count = 1 then py_slice (Some first_cut) (Some last_cut) chunk
      else if part = 1 then py_slice (Some first_cut) None chunk
      else if part = part_count then py_slice None (Some last_cut) chunk
      else chunk)"

definition expected_yields :: "int \<Rightarrow> int \<Rightarrow> int \<Rightarrow> bytes list \<Rightarrow> bytes list" where
  "expected_yields first_cut last_cut part_count chunks =
     map (\<lambda>k. slice_policy first_cut last_cut part_count (int k + 1) (chunks ! k))
       [0..<length chunks]"

definition fetch_calls :: "nat \<Rightarrow> int \<Rightarrow> int \<Rightarrow> nat \<Rightarrow> call list" where
  "fetch_calls ms offset chunk_size n =
     map (\<lambda>k. CallGetFile ms (offset + int k * chunk_size) chunk_size) [0..<n]"

text \<open>
  The \<open>k\<close>-th iteration of a CDN loop that starts at moment \<open>t\<close> fetches at \<open>t + 2 k\<close>
  and asks for the hashes at \<open>t + 2 k + 1\<close>. \<open>cdn_part\<close> is the decrypted chunk of that
  iteration when the fetch answers with a chunk, the counter of the IV fits four bytes,
  and every declared hash matches; otherwise \<open>None\<close>.
\<close>

definition cdn_part ::
  "env \<Rightarrow> nat \<Rightarrow> bytes \<Rightarrow> bytes \<Rightarrow> bytes \<Rightarrow> int \<Rightarrow> int \<Rightarrow> nat \<Rightarrow> bytes option" where
  "cdn_part ev t token key iv offset chunk_size k =
     (case env_get_cdn_file ev (t + 2 * k) token (offset + int k * chunk_size) chunk_size of
        Inr (CdnFile chunk) \<Rightarrow>
          (case cdn_iv iv (offset + int k * chunk_size) of
             Inr iv1 \<Rightarrow>
               (case env_get_cdn_file_hashes ev (t + 2 * k + 1) token
                       (offset + int k * chunk_size) of
                  Inr hashes \<Rightarrow>
                    if check_hashes (env_sha256 ev) (env_ctr256_decrypt ev chunk key iv1) 0 hashes
                    then Some (env_ctr256_decrypt ev chunk key iv1)
                    else None
                | Inl e \<Rightarrow> None)
           | Inl e \<Rightarrow> None)
      | _ \<Rightarrow> None)"

definition cdn_calls :: "nat \<Rightarrow> nat \<Rightarrow> int \<Rightarrow> int \<Rightarrow> nat \<Rightarrow> call list" where
  "cdn_calls ms cs offset chunk_size n =
     concat (map (\<lambda>k. [CallGetCdnFile cs (offset + int k * chunk_size) chunk_size,
                        CallGetCdnFileHashes ms (offset + int k * chunk_size)]) [0..<n])"

text \<open>
  Interleaved execution. The scheduler is cooperative: a coroutine runs until it awaits
  an upstream call. A resolution \<open>get_file_properties\<close> is therefore two atomic
  segments: the cache test up to the point where the lookup is issued, and, once the
  lookup has answered, the store into the cache and the return. Likewise
  \<open>generate_media_session\<close>: the read of the session table (with the removal of a
  disconnected session), and the creation and registration that follow the first
  \<open>await\<close>. A schedule says which of two coroutines runs its next segment.
\<close>

datatype resolve_task =
    ResolveStart
  | ResolveAwait nat int nat
  | ResolveDone "error + FileId"

definition resolve_step ::
  "env \<Rightarrow> string \<Rightarrow> (int \<rightharpoonup> nat) \<Rightarrow> resolve_task \<Rightarrow> state \<Rightarrow> resolve_task \<times> state" where
  "resolve_step ev db_id multi_clients task s =
     (case task of
        ResolveStart \<Rightarrow>
          if cached_file_ids s db_id = None then
            (case py_min_key (work_loads s) of
               Inl e \<Rightarrow> (ResolveDone (Inl e), s)
             | Inr idx \<Rightarrow>
                 (case multi_clients idx of
                    None \<Rightarrow> (ResolveDone (Inl KeyError), s)
                  | Some cl \<Rightarrow>
                      (ResolveAwait cl idx (now s), logged (CallGetFileIds cl db_id) s)))
          else (case cache_read db_id s of (r, s1) \<Rightarrow> (ResolveDone r, s1))
      | ResolveAwait cl idx t \<Rightarrow>
          (case env_get_file_ids ev t cl db_id idx of
             Inl e \<Rightarrow> (ResolveDone (Inl e), s)
           | Inr file_id \<Rightarrow>
               (case cache_read db_id
                       (s\<lparr>cached_file_ids := (cached_file_ids s)(db_id \<mapsto> file_id)\<rparr>) of
                  (r, s1) \<Rightarrow> (ResolveDone r, s1)))
      | ResolveDone r \<Rightarrow> (ResolveDone r, s))"

datatype session_task =
    SessionStart
  | SessionCreate
  | SessionDone "error + nat"

definition session_step ::
  "env \<Rightarrow> nat \<Rightarrow> FileId \<Rightarrow> session_task \<Rightarrow> state \<Rightarrow> session_task \<times> state" where
  "session_step ev cl file_id task s =
     (case task of
        SessionStart \<Rightarrow>
          (case drop_disconnected cl (dc_id file_id) s of
             (Some sid, s1) \<Rightarrow> (SessionDone (Inr sid), s1)
           | (None, s1) \<Rightarrow> (SessionCreate, s1))
      | SessionCreate \<Rightarrow>
          (case create_media_session ev cl (dc_id file_id) s of
             (r, s1) \<Rightarrow> (SessionDone r, s1))
      | SessionDone r \<Rightarrow> (SessionDone r, s))"

fun interleave ::
  "('t \<Rightarrow> state \<Rightarrow> 't \<times> state) \<Rightarrow> bool list \<Rightarrow> 't \<times> 't \<times> state \<Rightarrow> 't \<times> 't \<times> state" where
  "interleave step [] cfg = cfg"
| "interleave step (first # schedule) (a, b, s) =
     (if first
      then (case step a s of (a1, s1) \<Rightarrow> interleave step schedule (a1, b, s1))
      else (case step b s of (b1, s1) \<Rightarrow> interleave step schedule (a, b1, s1)))"

subsection \<open>Concrete inputs\<close>

definition example_file :: FileId where
  "example_file =
     \<lparr>dc_id = 4, media_id = 77, access_hash = 5, file_reference = [1, 2],
      file_type = DOCUMENT, thumbnail_size = [], thumbnail_source = LEGACY,
      chat_id = 0, chat_access_hash = 0, index = 1\<rparr>"

definition example_clients :: "int \<rightharpoonup> nat" where
  "example_clients = [0 \<mapsto> 0, 1 \<mapsto> 1, 2 \<mapsto> 2]"

definition example_env :: env where
  "example_env =
     \<lparr>env_get_file_ids = (\<lambda>t cl db_id idx. Inr (example_file\<lparr>index := idx\<rparr>)),
      env_get_channel_id = (\<lambda>c. - c),
      env_auth_create = (\<lambda>t dc. Inr [7]),
      env_session_start = (\<lambda>t sid. Inr ()),
      env_export_authorization = (\<lambda>t dc. Inr (int t, [9])),
      env_import_authorization = (\<lambda>t sid x. Inr ()),
      env_get_file = (\<lambda>t loc offset lim. Inr (File [1, 2, 3])),
      env_get_cdn_file = (\<lambda>t token offset lim. Inr (CdnFile [4, 5, 6])),
      env_reupload_cdn_file = (\<lambda>t token request_token. Inr ()),
      env_get_cdn_file_hashes = (\<lambda>t token offset. Inr []),
      env_sha256 = (\<lambda>b. b),
      env_ctr256_decrypt = (\<lambda>b key iv. b)\<rparr>"

definition example_state :: state where
  "example_state =
     \<lparr>work_loads = [(0, 3), (1, 1), (2, 1)],
      cdn_count = [],
      cached_file_ids = Map.empty,
      clients = (\<lambda>c. \<lparr>home_dc = 2, media_sessions = Map.empty\<rparr>),
      sessions = (\<lambda>i. \<lparr>sess_dc = 0, sess_cdn = False, is_started = False, stop_calls = 0\<rparr>),
      next_session = 0,
      calls = []\<rparr>"

section \<open>Resolver: cache hits, selection, failed lookups\<close>

lemma cache_read_hit:
  "cached_file_ids s db_id = Some d \<Longrightarrow> cache_read db_id s = (Inr d, s)"
  by (simp add: cache_read_def)

lemma cache_read_Inr:
  "cache_read db_id s = (Inr d, s1) \<Longrightarrow> s1 = s \<and> cached_file_ids s db_id = Some d"
  by (auto simp: cache_read_def split: option.splits)

lemma get_file_properties_cached:
  "get_file_properties ev db_id mc s = (Inr d, s1) \<Longrightarrow> cached_file_ids s1 db_id = Some d"
  by (auto simp: get_file_properties_def dest: cache_read_Inr
           split: if_splits sum.splits prod.splits)

text \<open>
  C3. A resolution whose id is in the cache returns the cached descriptor and leaves the
  whole state as it was: no call is logged and the cache is not written. So a resolution
  that follows a successful one for the same id is a pure cache read.
\<close>

theorem cache_hit_idempotence:
  "(cached_file_ids s db_id = Some d \<longrightarrow>
      get_file_properties ev db_id mc s = (Inr d, s)) \<and>
   (get_file_properties ev db_id mc s = (Inr d, s1) \<longrightarrow>
      get_file_properties ev db_id mc s1 = (Inr d, s1))"
proof (intro conjI impI)
  assume "cached_file_ids s db_id = Some d"
  then show "get_file_properties ev db_id mc s = (Inr d, s)"
    by (simp add: get_file_properties_def cache_read_hit)
next
  assume "get_file_properties ev db_id mc s = (Inr d, s1)"
  then have "cached_file_ids s1 db_id = Some d"
    by (rule get_file_properties_cached)
  then show "get_file_properties ev db_id mc s1 = (Inr d, s1)"
    by (simp add: get_file_properties_def cache_read_hit)
qed

theorem cache_hit_idempotence_witness:
  "cached_file_ids (example_state\<lparr>cached_file_ids := [''f1'' \<mapsto> example_file]\<rparr>) ''f1''
     = Some example_file \<and>
   get_file_properties example_env ''f1'' example_clients
       (example_state\<lparr>cached_file_ids := [''f1'' \<mapsto> example_file]\<rparr>)
     = (Inr example_file, example_state\<lparr>cached_file_ids := [''f1'' \<mapsto> example_file]\<rparr>) \<and>
   get_file_properties example_env ''f1'' example_clients example_state
     = (Inr example_file,
        example_state\<lparr>cached_file_ids := [''f1'' \<mapsto> example_file],
                       calls := [CallGetFileIds 1 ''f1'']\<rparr>) \<and>
   get_file_properties example_env ''f1'' example_clients
       (example_state\<lparr>cached_file_ids := [''f1'' \<mapsto> example_file],
                       calls := [CallGetFileIds 1 ''f1'']\<rparr>)
     = (Inr example_file,
        example_state\<lparr>cached_file_ids := [''f1'' \<mapsto> example_file],
                       calls := [CallGetFileIds 1 ''f1'']\<rparr>)"
proof -
  have hit: "cached_file_ids (example_state\<lparr>cached_file_ids := [''f1'' \<mapsto> example_file]\<rparr>) ''f1''
               = Some example_file"
    by simp
  have first: "get_file_properties example_env ''f1'' example_clients example_state
     = (Inr example_file,
        example_state\<lparr>cached_file_ids := [''f1'' \<mapsto> example_file],
                       calls := [CallGetFileIds 1 ''f1'']\<rparr>)"
    by (simp add: get_file_properties_def generate_file_properties_def get_file_ids_def
          cache_read_def example_state_def example_env_def example_clients_def
          example_file_def logged_def now_def)
  from hit first
    cache_hit_idempotence [of "example_state\<lparr>cached_file_ids := [''f1'' \<mapsto> example_file]\<rparr>"
      "''f1''" example_file example_env example_clients]
    cache_hit_idempotence [of example_state "''f1''" example_file example_env example_clients
      "example_state\<lparr>cached_file_ids := [''f1'' \<mapsto> example_file],
                      calls := [CallGetFileIds 1 ''f1'']\<rparr>"]
  show ?thesis by blast
qed


lemma now_logged: "now (logged c s) = Suc (now s)"
  by (simp add: now_def logged_def)

lemma calls_logged: "calls (logged c s) = calls s @ [c]"
  by (simp add: logged_def)

lemma cached_logged: "cached_file_ids (logged c s) = cached_file_ids s"
  by (simp add: logged_def)

lemma work_loads_logged: "work_loads (logged c s) = work_loads s"
  by (simp add: logged_def)

lemma min_scan_first_min:
  "\<exists>pre k v post. b # d = pre @ (k, v) # post \<and> (\<forall>p\<in>set pre. v < snd p) \<and>
     (\<forall>p\<in>set post. v \<le> snd p) \<and> min_scan b d = (k, v)"
proof (induction d arbitrary: b)
  case Nil
  show ?case by (rule exI[of _ "[]"]) (cases b, simp)
next
  case (Cons a d)
  obtain ak av where a: "a = (ak, av)" by (cases a)
  show ?case
  proof (cases "av < snd b")
    case True
    from Cons[of a] obtain pre k v post where
      h: "a # d = pre @ (k, v) # post" "\<forall>p\<in>set pre. v < snd p"
         "\<forall>p\<in>set post. v \<le> snd p" "min_scan a d = (k, v)" by blast
    have vle: "v \<le> av"
    proof (cases pre)
      case Nil
      then show ?thesis using h(1) a by simp
    next
      case (Cons x xs)
      then have "a \<in> set pre" using h(1) by simp
      then show ?thesis using h(2) a by force
    qed
    have "b # a # d = (b # pre) @ (k, v) # post" using h(1) by simp
    moreover have "\<forall>p\<in>set (b # pre). v < snd p" using h(2) vle True by auto
    moreover have "min_scan b (a # d) = (k, v)" using True h(4) a by simp
    ultimately show ?thesis using h(3) by blast
  next
    case False
    from Cons[of b] obtain pre k v post where
      h: "b # d = pre @ (k, v) # post" "\<forall>p\<in>set pre. v < snd p"
         "\<forall>p\<in>set post. v \<le> snd p" "min_scan b d = (k, v)" by blast
    have ms: "min_scan b (a # d) = (k, v)" using False h(4) a by simp
    show ?thesis
    proof (cases pre)
      case Nil
      then have b: "b = (k, v)" and d: "d = post" using h(1) by auto
      have "b # a # d = [] @ (k, v) # (a # post)" using b d by simp
      moreover have "\<forall>p\<in>set (a # post). v \<le> snd p" using h(3) False a b by auto
      moreover have "\<forall>p\<in>set ([]::(int \<times> int) list). v < snd p" by simp
      ultimately show ?thesis using ms by blast
    next
      case (Cons x xs)
      then have x: "x = b" and d: "d = xs @ (k, v) # post" using h(1) by auto
      have vb: "v < snd b" using h(2) Cons x by simp
      have "b # a # d = (b # a # xs) @ (k, v) # post" using d by simp
      moreover have "\<forall>p\<in>set (b # a # xs). v < snd p" using h(2) Cons x vb False a by auto
      ultimately show ?thesis using ms h(3) by blast
    qed
  qed
qed

lemma py_min_key_first_min:
  assumes "d \<noteq> []"
  shows "\<exists>pre k v post. d = pre @ (k, v) # post \<and> (\<forall>p\<in>set pre. v < snd p) \<and>
     (\<forall>p\<in>set post. v \<le> snd p) \<and> py_min_key d = Inr k"
proof -
  from assms obtain k0 v0 rest where d: "d = (k0, v0) # rest" by (cases d) auto
  from min_scan_first_min[of "(k0, v0)" rest] obtain pre k v post where
    h: "(k0, v0) # rest = pre @ (k, v) # post" "\<forall>p\<in>set pre. v < snd p"
       "\<forall>p\<in>set post. v \<le> snd p" "min_scan (k0, v0) rest = (k, v)" by blast
  have "py_min_key d = Inr k" using d h(4) by simp
  then show ?thesis using d h(1,2,3) by blast
qed

lemma first_min_sorted:
  assumes d: "d = pre @ (k, v) # post" and pre: "\<forall>p\<in>set pre. v < snd p"
    and post: "\<forall>p\<in>set post. v \<le> snd p" and srt: "sorted (map fst d)"
  shows "spec_least_loaded d = k"
proof -
  have m: "Min (set (map snd d)) = v"
  proof (rule Min_eqI)
    show "finite (set (map snd d))" by simp
    show "\<And>y. y \<in> set (map snd d) \<Longrightarrow> v \<le> y" using d pre post by force
    show "v \<in> set (map snd d)" using d by force
  qed
  have f1: "filter (\<lambda>p. snd p = v) pre = []" using pre by (auto simp: filter_empty_conv)
  have f: "filter (\<lambda>p. snd p = v) d = (k, v) # filter (\<lambda>p. snd p = v) post"
    using d f1 by simp
  have kle: "\<forall>p\<in>set post. k \<le> fst p" using srt d by (auto simp: sorted_append)
  have M2: "Min (set (map fst ((k, v) # filter (\<lambda>p. snd p = v) post))) = k"
  proof (rule Min_eqI)
    show "finite (set (map fst ((k, v) # filter (\<lambda>p. snd p = v) post)))" by simp
    show "\<And>y. y \<in> set (map fst ((k, v) # filter (\<lambda>p. snd p = v) post)) \<Longrightarrow> k \<le> y"
      using kle by auto
    show "k \<in> set (map fst ((k, v) # filter (\<lambda>p. snd p = v) post))" by simp
  qed
  show ?thesis unfolding spec_least_loaded_def Let_def m f using M2 .
qed

lemma generate_file_properties_calls:
  "py_min_key (work_loads s) = Inr k \<Longrightarrow> mc k = Some cl \<Longrightarrow>
   calls (snd (generate_file_properties ev db_id mc s)) = calls s @ [CallGetFileIds cl db_id]"
  by (simp add: generate_file_properties_def get_file_ids_def cache_read_def calls_logged
        split: sum.splits)

text \<open>
  C4. On a miss the resolver selects a connection whose workload is the
  minimum, and among ties the first one in the iteration order of the workload table.
  When the table iterates in increasing index order this is the lowest index among the
  ties; with \<open>{0:3, 1:1, 2:1}\<close> it is connection \<open>1\<close>. The lookup goes to the selected
  connection.
\<close>

theorem least_loaded_selection:
  "(d \<noteq> [] \<longrightarrow>
      (\<exists>pre k v post. d = pre @ (k, v) # post \<and> (\<forall>p\<in>set pre. v < snd p) \<and>
         (\<forall>p\<in>set post. v \<le> snd p) \<and> py_min_key d = Inr k)) \<and>
   (d \<noteq> [] \<and> sorted (map fst d) \<longrightarrow> py_min_key d = Inr (spec_least_loaded d)) \<and>
   py_min_key [(0, 3), (1, 1), (2, 1)] = Inr 1 \<and>
   (py_min_key (work_loads s) = Inr i \<and> mc i = Some cl \<longrightarrow>
      calls (snd (generate_file_properties ev db_id mc s)) = calls s @ [CallGetFileIds cl db_id])"
proof (intro conjI impI)
  assume "d \<noteq> []"
  then show "\<exists>pre k v post. d = pre @ (k, v) # post \<and> (\<forall>p\<in>set pre. v < snd p) \<and>
         (\<forall>p\<in>set post. v \<le> snd p) \<and> py_min_key d = Inr k"
    by (rule py_min_key_first_min)
next
  assume a: "d \<noteq> [] \<and> sorted (map fst d)"
  then obtain pre k v post where
    h: "d = pre @ (k, v) # post" "\<forall>p\<in>set pre. v < snd p" "\<forall>p\<in>set post. v \<le> snd p"
       "py_min_key d = Inr k"
    using py_min_key_first_min[of d] by blast
  from first_min_sorted[OF h(1,2,3)] a h(4)
  show "py_min_key d = Inr (spec_least_loaded d)" by simp
next
  show "py_min_key [(0, 3), (1, 1), (2, 1)] = Inr 1" by simp
next
  assume "py_min_key (work_loads s) = Inr i \<and> mc i = Some cl"
  then show "calls (snd (generate_file_properties ev db_id mc s)) = calls s @ [CallGetFileIds cl db_id]"
    by (simp add: generate_file_properties_calls)
qed

theorem least_loaded_selection_witness:
  "[(0, 3), (1, 1), (2, 1)] \<noteq> ([]::(int, int) dict) \<and>
   sorted (map fst [(0::int, 3::int), (1, 1), (2, 1)]) \<and>
   py_min_key [(0, 3), (1, 1), (2, 1)] = Inr (spec_least_loaded [(0, 3), (1, 1), (2, 1)]) \<and>
   py_min_key (work_loads example_state) = Inr 1 \<and> example_clients 1 = Some 1 \<and>
   calls (snd (generate_file_properties example_env ''f1'' example_clients example_state))
     = calls example_state @ [CallGetFileIds 1 ''f1'']"
proof -
  have a: "[(0, 3), (1, 1), (2, 1)] \<noteq> ([]::(int, int) dict) \<and>
           sorted (map fst [(0::int, 3::int), (1, 1), (2, 1)])" by simp
  have b: "py_min_key (work_loads example_state) = Inr 1 \<and> example_clients 1 = Some 1"
    by (simp add: example_state_def example_clients_def)
  from a b least_loaded_selection [of "[(0, 3), (1, 1), (2, 1)]" example_state 1
      example_clients 1 example_env "''f1''"]
  show ?thesis by blast
qed

theorem least_loaded_lowest_index_counterexample:
  "py_min_key [(2, 1), (1, 1), (0, 3)] = Inr 2 \<and>
   spec_least_loaded [(2, 1), (1, 1), (0, 3)] = 1"
  by (simp add: spec_least_loaded_def)

lemma generate_file_properties_error_cache:
  "fst (generate_file_properties ev db_id mc s) = Inl e \<Longrightarrow>
   cached_file_ids (snd (generate_file_properties ev db_id mc s)) = cached_file_ids s"
  by (auto simp: generate_file_properties_def get_file_ids_def cache_read_def cached_logged
           split: sum.splits option.splits)

text \<open>
  C10. When the metadata lookup raises, \<open>generate_file_properties\<close> raises the same
  error and the descriptor cache is what it was; more generally, whenever
  \<open>generate_file_properties\<close> raises, the cache is unchanged. A resolution of the same
  still-uncached id after the failure issues the lookup again.
\<close>

theorem failed_lookup_not_cached:
  "(fst (generate_file_properties ev db_id mc s) = Inl e' \<longrightarrow>
      cached_file_ids (snd (generate_file_properties ev db_id mc s)) = cached_file_ids s) \<and>
   (py_min_key (work_loads s) = Inr i \<and> mc i = Some cl \<and>
    env_get_file_ids ev (now s) cl db_id i = Inl e \<longrightarrow>
      generate_file_properties ev db_id mc s = (Inl e, logged (CallGetFileIds cl db_id) s) \<and>
      cached_file_ids (logged (CallGetFileIds cl db_id) s) = cached_file_ids s \<and>
      (cached_file_ids s db_id = None \<longrightarrow>
         calls (snd (get_file_properties ev db_id mc (logged (CallGetFileIds cl db_id) s)))
           = calls s @ [CallGetFileIds cl db_id, CallGetFileIds cl db_id]))"
proof (intro conjI impI)
  assume "fst (generate_file_properties ev db_id mc s) = Inl e'"
  then show "cached_file_ids (snd (generate_file_properties ev db_id mc s)) = cached_file_ids s"
    by (rule generate_file_properties_error_cache)
next
  assume a: "py_min_key (work_loads s) = Inr i \<and> mc i = Some cl \<and>
    env_get_file_ids ev (now s) cl db_id i = Inl e"
  then show "generate_file_properties ev db_id mc s = (Inl e, logged (CallGetFileIds cl db_id) s)"
    by (simp add: generate_file_properties_def get_file_ids_def)
  show "cached_file_ids (logged (CallGetFileIds cl db_id) s) = cached_file_ids s"
    by (rule cached_logged)
  assume miss: "cached_file_ids s db_id = None"
  let ?s1 = "logged (CallGetFileIds cl db_id) s"
  have sel: "py_min_key (work_loads ?s1) = Inr i" using a by (simp add: work_loads_logged)
  have "calls (snd (generate_file_properties ev db_id mc ?s1)) = calls ?s1 @ [CallGetFileIds cl db_id]"
    using sel a by (simp add: generate_file_properties_calls)
  moreover have "calls (snd (get_file_properties ev db_id mc ?s1))
      = calls (snd (generate_file_properties ev db_id mc ?s1))"
    using miss
    by (auto simp: get_file_properties_def cached_logged cache_read_def
             split: sum.splits prod.splits option.splits)
  ultimately show "calls (snd (get_file_properties ev db_id mc ?s1))
      = calls s @ [CallGetFileIds cl db_id, CallGetFileIds cl db_id]"
    by (simp add: calls_logged)
qed

theorem failed_lookup_not_cached_witness:
  "py_min_key (work_loads example_state) = Inr 1 \<and> example_clients 1 = Some 1 \<and>
   env_get_file_ids (example_env\<lparr>env_get_file_ids := \<lambda>t cl db_id idx. Inl TimeoutError\<rparr>)
     (now example_state) 1 ''f1'' 1 = Inl TimeoutError \<and>
   generate_file_properties (example_env\<lparr>env_get_file_ids := \<lambda>t cl db_id idx. Inl TimeoutError\<rparr>)
     ''f1'' example_clients example_state
     = (Inl TimeoutError, logged (CallGetFileIds 1 ''f1'') example_state) \<and>
   cached_file_ids (logged (CallGetFileIds 1 ''f1'') example_state) = cached_file_ids example_state \<and>
   cached_file_ids example_state ''f1'' = None \<and>
   calls (snd (get_file_properties
       (example_env\<lparr>env_get_file_ids := \<lambda>t cl db_id idx. Inl TimeoutError\<rparr>)
       ''f1'' example_clients (logged (CallGetFileIds 1 ''f1'') example_state)))
     = calls example_state @ [CallGetFileIds 1 ''f1'', CallGetFileIds 1 ''f1'']"
proof -
  have a: "py_min_key (work_loads example_state) = Inr 1 \<and> example_clients 1 = Some 1 \<and>
   env_get_file_ids (example_env\<lparr>env_get_file_ids := \<lambda>t cl db_id idx. Inl TimeoutError\<rparr>)
     (now example_state) 1 ''f1'' 1 = Inl TimeoutError"
    by (simp add: example_state_def example_clients_def)
  have b: "cached_file_ids example_state ''f1'' = None" by (simp add: example_state_def)
  from a b failed_lookup_not_cached [of
      "example_env\<lparr>env_get_file_ids := \<lambda>t cl db_id idx. Inl TimeoutError\<rparr>"
      "''f1''" example_clients example_state TimeoutError 1 1 TimeoutError]
  show ?thesis by blast
qed


section \<open>Session manager: the bounded import loop\<close>

lemma attempt_calls_Suc:
  "attempt_calls dc sid (Suc n) =
     [CallExportAuthorization dc, CallImportAuthorization sid] @ attempt_calls dc sid n"
  by (simp add: attempt_calls_def)

lemma logged_twice: "logged c2 (logged c1 s) = s\<lparr>calls := calls s @ [c1, c2]\<rparr>"
  by (simp add: logged_def)

lemma import_answer_shift:
  "import_answer ev (t + 2) dc sid k = import_answer ev t dc sid (Suc k)"
proof -
  have "t + 2 + 2 * k = t + 2 * Suc k" by simp
  then show ?thesis by (simp only: import_answer_def)
qed

lemma export_ok_shift: "export_ok ev (t + 2) dc k = export_ok ev t dc (Suc k)"
proof -
  have "t + 2 + 2 * k = t + 2 * Suc k" by simp
  then show ?thesis by (simp only: export_ok_def)
qed

lemma import_loop_retry:
  assumes "export_ok ev (now s) dc 0" "import_answer ev (now s) dc sid 0 = Inl AuthBytesInvalid"
  shows "import_loop (Suc n) ev dc sid s =
         import_loop n ev dc sid
           (s\<lparr>calls := calls s @ [CallExportAuthorization dc, CallImportAuthorization sid]\<rparr>)"
proof -
  from assms obtain x where "env_export_authorization ev (now s) dc = Inr x"
    "env_import_authorization ev (Suc (now s)) sid x = Inl AuthBytesInvalid"
    by (auto simp: import_answer_def export_ok_def split: sum.splits)
  then show ?thesis
    by (simp add: export_authorization_def import_authorization_def now_logged logged_twice)
qed

lemma import_loop_all_fail:
  "(\<forall>k<n. export_ok ev (now s) dc k \<and> import_answer ev (now s) dc sid k = Inl AuthBytesInvalid) \<Longrightarrow>
   import_loop n ev dc sid s =
     (Inl AuthBytesInvalid, session_stop sid (s\<lparr>calls := calls s @ attempt_calls dc sid n\<rparr>))"
proof (induction n arbitrary: s)
  case 0
  then show ?case by (simp add: attempt_calls_def)
next
  case (Suc n)
  let ?s2 = "s\<lparr>calls := calls s @ [CallExportAuthorization dc, CallImportAuthorization sid]\<rparr>"
  have now2: "now ?s2 = now s + 2" by (simp add: now_def)
  have step: "import_loop (Suc n) ev dc sid s = import_loop n ev dc sid ?s2"
    using Suc.prems by (intro import_loop_retry) auto
  have "\<forall>k<n. export_ok ev (now ?s2) dc k \<and> import_answer ev (now ?s2) dc sid k = Inl AuthBytesInvalid"
  proof (intro allI impI)
    fix k assume "k < n"
    then have "Suc k < Suc n" by simp
    with Suc.prems have "export_ok ev (now s) dc (Suc k) \<and>
        import_answer ev (now s) dc sid (Suc k) = Inl AuthBytesInvalid" by blast
    then show "export_ok ev (now ?s2) dc k \<and> import_answer ev (now ?s2) dc sid k = Inl AuthBytesInvalid"
      by (simp only: now2 import_answer_shift export_ok_shift)
  qed
  from Suc.IH[OF this] show ?case unfolding step by (simp add: attempt_calls_Suc)
qed

lemma import_loop_exit:
  "j < n \<Longrightarrow>
   (\<forall>k<j. export_ok ev (now s) dc k \<and> import_answer ev (now s) dc sid k = Inl AuthBytesInvalid) \<Longrightarrow>
   export_ok ev (now s) dc j \<Longrightarrow> import_answer ev (now s) dc sid j \<noteq> Inl AuthBytesInvalid \<Longrightarrow>
   import_loop n ev dc sid s =
     (import_answer ev (now s) dc sid j, s\<lparr>calls := calls s @ attempt_calls dc sid (Suc j)\<rparr>)"
proof (induction n arbitrary: s j)
  case 0
  then show ?case by simp
next
  case (Suc n)
  let ?s2 = "s\<lparr>calls := calls s @ [CallExportAuthorization dc, CallImportAuthorization sid]\<rparr>"
  have now2: "now ?s2 = now s + 2" by (simp add: now_def)
  show ?case
  proof (cases j)
    case 0
    from Suc.prems(3) 0 obtain x where x: "env_export_authorization ev (now s) dc = Inr x"
      by (auto simp: export_ok_def split: sum.splits)
    then have ia: "import_answer ev (now s) dc sid 0 = env_import_authorization ev (Suc (now s)) sid x"
      by (simp add: import_answer_def)
    show ?thesis using x ia Suc.prems(4) 0
      by (cases "env_import_authorization ev (Suc (now s)) sid x")
         (simp_all add: export_authorization_def import_authorization_def now_logged
            logged_twice attempt_calls_def)
  next
    case (Suc i)
    have step: "import_loop (Suc n) ev dc sid s = import_loop n ev dc sid ?s2"
      using Suc.prems(2) Suc by (intro import_loop_retry) auto
    have shift: "\<And>k. import_answer ev (now ?s2) dc sid k = import_answer ev (now s) dc sid (Suc k)"
       "\<And>k. export_ok ev (now ?s2) dc k = export_ok ev (now s) dc (Suc k)"
      by (simp_all only: now2 import_answer_shift export_ok_shift)
    have a: "i < n" using Suc Suc.prems(1) by simp
    have b: "\<forall>k<i. export_ok ev (now ?s2) dc k \<and> import_answer ev (now ?s2) dc sid k = Inl AuthBytesInvalid"
      using Suc.prems(2) Suc by (auto simp: shift)
    have c: "export_ok ev (now ?s2) dc i" using Suc.prems(3) Suc by (simp add: shift)
    have d: "import_answer ev (now ?s2) dc sid i \<noteq> Inl AuthBytesInvalid"
      using Suc.prems(4) Suc by (simp add: shift)
    from Suc.IH[OF a b c d] show ?thesis unfolding step using Suc
      by (simp add: shift attempt_calls_Suc)
  qed
qed

lemma import_loop_count:
  "length (filter (\<lambda>c. c = CallImportAuthorization sid) (calls (snd (import_loop n ev dc sid s))))
     \<le> length (filter (\<lambda>c. c = CallImportAuthorization sid) (calls s)) + n"
proof (induction n arbitrary: s)
  case 0
  then show ?case by (simp add: session_stop_def logged_def)
next
  case (Suc n)
  show ?case
  proof (cases "env_export_authorization ev (now s) dc")
    case (Inl e)
    then show ?thesis by (simp add: export_authorization_def logged_def)
  next
    case (Inr x)
    note ex = this
    let ?s2 = "s\<lparr>calls := calls s @ [CallExportAuthorization dc, CallImportAuthorization sid]\<rparr>"
    show ?thesis
    proof (cases "env_import_authorization ev (Suc (now s)) sid x")
      case (Inr u)
      then show ?thesis using ex
        by (simp add: export_authorization_def import_authorization_def now_logged logged_twice)
    next
      case (Inl e)
      show ?thesis
      proof (cases "e = AuthBytesInvalid")
        case True
        have step: "import_loop (Suc n) ev dc sid s = import_loop n ev dc sid ?s2"
          using Inl True ex
          by (simp add: export_authorization_def import_authorization_def now_logged logged_twice)
        show ?thesis unfolding step using Suc.IH[of ?s2] by simp
      next
        case False
        then show ?thesis using Inl ex
          by (simp add: export_authorization_def import_authorization_def now_logged logged_twice)
      qed
    qed
  qed
qed

lemma create_media_session_import_error:
  "dc \<noteq> home_dc (clients s0 cl) \<Longrightarrow> auth_create ev dc s0 = (Inr key, s1) \<Longrightarrow>
   new_session dc False s1 = (sid, s2) \<Longrightarrow> session_start ev sid s2 = (Inr u, s3) \<Longrightarrow>
   import_loop 6 ev dc sid s3 = (Inl e, s4) \<Longrightarrow>
   create_media_session ev cl dc s0 = (Inl e, s4)"
  by (simp add: create_media_session_def)

text \<open>
  C7. For a data center other than the home one the import is attempted at most six
  times. Each attempt exports and then imports what it exported; an attempt that fails
  with \<open>AuthBytesInvalid\<close> is followed by the next one; the first attempt that answers
  anything else ends the loop with that answer (success, or another error, which is not
  retried). When all six attempts fail with \<open>AuthBytesInvalid\<close> the session is stopped
  and \<open>AuthBytesInvalid\<close> is raised, and \<open>create_media_session\<close> raises it without
  registering the session.
\<close>

theorem import_retry_bounded:
  "length (filter (\<lambda>c. c = CallImportAuthorization sid) (calls (snd (import_loop 6 ev dc sid s))))
     \<le> length (filter (\<lambda>c. c = CallImportAuthorization sid) (calls s)) + 6 \<and>
   ((\<forall>k<6. export_ok ev (now s) dc k \<and> import_answer ev (now s) dc sid k = Inl AuthBytesInvalid) \<longrightarrow>
      import_loop 6 ev dc sid s =
        (Inl AuthBytesInvalid, session_stop sid (s\<lparr>calls := calls s @ attempt_calls dc sid 6\<rparr>))) \<and>
   (j < 6 \<and>
    (\<forall>k<j. export_ok ev (now s) dc k \<and> import_answer ev (now s) dc sid k = Inl AuthBytesInvalid) \<and>
    export_ok ev (now s) dc j \<and> import_answer ev (now s) dc sid j \<noteq> Inl AuthBytesInvalid \<longrightarrow>
      import_loop 6 ev dc sid s =
        (import_answer ev (now s) dc sid j, s\<lparr>calls := calls s @ attempt_calls dc sid (Suc j)\<rparr>)) \<and>
   (dc \<noteq> home_dc (clients s0 cl) \<and> auth_create ev dc s0 = (Inr key, s1) \<and>
    new_session dc False s1 = (sid, s2) \<and> session_start ev sid s2 = (Inr u, s) \<and>
    import_loop 6 ev dc sid s = (Inl e, s4) \<longrightarrow>
      create_media_session ev cl dc s0 = (Inl e, s4))"
proof (intro conjI impI)
  show "length (filter (\<lambda>c. c = CallImportAuthorization sid) (calls (snd (import_loop 6 ev dc sid s))))
     \<le> length (filter (\<lambda>c. c = CallImportAuthorization sid) (calls s)) + 6"
    by (rule import_loop_count)
next
  assume "\<forall>k<6. export_ok ev (now s) dc k \<and> import_answer ev (now s) dc sid k = Inl AuthBytesInvalid"
  then show "import_loop 6 ev dc sid s =
        (Inl AuthBytesInvalid, session_stop sid (s\<lparr>calls := calls s @ attempt_calls dc sid 6\<rparr>))"
    by (rule import_loop_all_fail)
next
  assume "j < 6 \<and>
    (\<forall>k<j. export_ok ev (now s) dc k \<and> import_answer ev (now s) dc sid k = Inl AuthBytesInvalid) \<and>
    export_ok ev (now s) dc j \<and> import_answer ev (now s) dc sid j \<noteq> Inl AuthBytesInvalid"
  then show "import_loop 6 ev dc sid s =
        (import_answer ev (now s) dc sid j, s\<lparr>calls := calls s @ attempt_calls dc sid (Suc j)\<rparr>)"
    by (intro import_loop_exit) auto
next
  assume "dc \<noteq> home_dc (clients s0 cl) \<and> auth_create ev dc s0 = (Inr key, s1) \<and>
    new_session dc False s1 = (sid, s2) \<and> session_start ev sid s2 = (Inr u, s) \<and>
    import_loop 6 ev dc sid s = (Inl e, s4)"
  then show "create_media_session ev cl dc s0 = (Inl e, s4)"
    by (intro create_media_session_import_error) auto
qed


theorem import_retry_bounded_witness:
  "import_loop 6 (example_env\<lparr>env_import_authorization := \<lambda>t sid x. Inl AuthBytesInvalid\<rparr>)
       4 0 example_state
     = (Inl AuthBytesInvalid,
        session_stop 0 (example_state\<lparr>calls := calls example_state @ attempt_calls 4 0 6\<rparr>)) \<and>
   import_loop 6
       (example_env\<lparr>env_import_authorization :=
          \<lambda>t sid x. if t < 4 then Inl AuthBytesInvalid else Inr ()\<rparr>)
       4 0 example_state
     = (Inr (), example_state\<lparr>calls := calls example_state @ attempt_calls 4 0 3\<rparr>) \<and>
   create_media_session (example_env\<lparr>env_import_authorization := \<lambda>t sid x. Inl AuthBytesInvalid\<rparr>)
       1 4 example_state
     = (Inl AuthBytesInvalid,
        session_stop 0
          ((snd (session_start example_env 0
                  (snd (new_session 4 False (logged (CallAuthCreate 4) example_state)))))
             \<lparr>calls := [CallAuthCreate 4, CallSessionStart 0] @ attempt_calls 4 0 6\<rparr>))"
proof -
  let ?fail = "example_env\<lparr>env_import_authorization := \<lambda>t sid x. Inl AuthBytesInvalid\<rparr>"
  let ?late = "example_env\<lparr>env_import_authorization :=
                 \<lambda>t sid x. if t < 4 then Inl AuthBytesInvalid else Inr ()\<rparr>"
  let ?s1 = "logged (CallAuthCreate 4) example_state"
  let ?s2 = "snd (new_session 4 False ?s1)"
  let ?s3 = "snd (session_start example_env 0 ?s2)"
  have all: "\<And>s. \<forall>k<6. export_ok ?fail (now s) 4 k \<and>
                 import_answer ?fail (now s) 4 0 k = Inl AuthBytesInvalid"
    by (simp add: export_ok_def import_answer_def example_env_def)
  have two: "2 < (6::nat) \<and>
     (\<forall>k<2. export_ok ?late (now example_state) 4 k \<and>
             import_answer ?late (now example_state) 4 0 k = Inl AuthBytesInvalid) \<and>
     export_ok ?late (now example_state) 4 2 \<and>
     import_answer ?late (now example_state) 4 0 2 \<noteq> Inl AuthBytesInvalid"
    by (auto simp: export_ok_def import_answer_def example_env_def example_state_def now_def)
  have ans: "import_answer ?late (now example_state) 4 0 2 = Inr ()"
    by (simp add: import_answer_def example_env_def example_state_def now_def)
  have loop1: "import_loop 6 ?fail 4 0 example_state
     = (Inl AuthBytesInvalid,
        session_stop 0 (example_state\<lparr>calls := calls example_state @ attempt_calls 4 0 6\<rparr>))"
    using all [of example_state]
      import_retry_bounded [where ev = ?fail and s = example_state and dc = 4 and sid = 0]
    by blast
  have loop2: "import_loop 6 ?late 4 0 example_state
     = (Inr (), example_state\<lparr>calls := calls example_state @ attempt_calls 4 0 3\<rparr>)"
    using two ans
      import_retry_bounded [where ev = ?late and s = example_state and dc = 4 and sid = 0
        and j = 2]
    by (simp add: numeral_3_eq_3)
  have loop3: "import_loop 6 ?fail 4 0 ?s3
     = (Inl AuthBytesInvalid, session_stop 0 (?s3\<lparr>calls := calls ?s3 @ attempt_calls 4 0 6\<rparr>))"
    using all [of ?s3]
      import_retry_bounded [where ev = ?fail and s = ?s3 and dc = 4 and sid = 0]
    by blast
  have pre: "4 \<noteq> home_dc (clients example_state 1) \<and>
     auth_create ?fail 4 example_state = (Inr [7], ?s1) \<and>
     new_session 4 False ?s1 = (0, ?s2) \<and>
     session_start ?fail 0 ?s2 = (Inr (), ?s3)"
    by (simp add: auth_create_def new_session_def session_start_def example_env_def
          example_state_def logged_def now_def)
  have calls3: "calls ?s3 = [CallAuthCreate 4, CallSessionStart 0]"
    by (simp add: new_session_def session_start_def example_env_def example_state_def
          logged_def now_def)
  have create: "create_media_session ?fail 1 4 example_state
     = (Inl AuthBytesInvalid, session_stop 0 (?s3\<lparr>calls := calls ?s3 @ attempt_calls 4 0 6\<rparr>))"
    using pre loop3
      import_retry_bounded [where ev = ?fail and s = ?s3 and dc = 4 and sid = 0
        and ?s0.0 = example_state and cl = 1 and key = "[7]" and ?s1.0 = ?s1 and ?s2.0 = ?s2
        and u = "()" and e = AuthBytesInvalid
        and ?s4.0 = "session_stop 0 (?s3\<lparr>calls := calls ?s3 @ attempt_calls 4 0 6\<rparr>)"]
    by blast
  show ?thesis using loop1 loop2 create calls3 by simp
qed


section \<open>Streaming: the workload counter\<close>

lemma dict_set_twice: "dict_set (dict_set d k a) k b = dict_set d k b"
  by (induction d) auto

lemma dict_set_same: "dict_get d k = Some w \<Longrightarrow> dict_set d k w = d"
  by (induction d) (auto simp: dict_get_def split: if_splits)

lemma dict_get_set: "dict_get (dict_set d k a) k = Some a"
  by (induction d) (auto simp: dict_get_def)

lemma work_loads_session_stop: "work_loads (session_stop sid s) = work_loads s"
  by (simp add: session_stop_def work_loads_logged)

lemma work_loads_pop: "work_loads (pop_media_session cl dc s) = work_loads s"
  by (simp add: pop_media_session_def)

lemma work_loads_register: "work_loads (register_media_session cl dc sid s) = work_loads s"
  by (simp add: register_media_session_def)

lemma work_loads_new_session: "work_loads (snd (new_session dc b s)) = work_loads s"
  by (simp add: new_session_def)

lemma work_loads_session_start: "work_loads (snd (session_start ev sid s)) = work_loads s"
  by (simp add: session_start_def work_loads_logged split: sum.splits)

lemma work_loads_auth_create: "work_loads (snd (auth_create ev dc s)) = work_loads s"
  by (simp add: auth_create_def work_loads_logged)

lemma work_loads_bump: "work_loads (bump_cdn_count idx s) = work_loads s"
  by (simp add: bump_cdn_count_def)

lemma work_loads_import_loop: "work_loads (snd (import_loop n ev dc sid s)) = work_loads s"
  by (induction n arbitrary: s)
     (auto simp: export_authorization_def import_authorization_def work_loads_logged
        work_loads_session_stop split: sum.splits prod.splits)

lemma work_loads_drop: "work_loads (snd (drop_disconnected cl dc s)) = work_loads s"
  by (simp add: drop_disconnected_def work_loads_session_stop work_loads_pop
        split: option.splits)

lemma work_loads_create: "work_loads (snd (create_media_session ev cl dc s)) = work_loads s"
  by (simp add: create_media_session_def case_prod_beta work_loads_register
        work_loads_import_loop work_loads_session_start work_loads_new_session
        work_loads_auth_create split: sum.splits)

lemma work_loads_generate:
  "work_loads (snd (generate_media_session ev cl fid s)) = work_loads s"
  by (simp add: generate_media_session_def case_prod_beta work_loads_create work_loads_drop
        split: option.splits)

lemma work_loads_direct_loop:
  "work_loads (snd (snd (direct_loop ev con ms loc fc lc pc cs r cp off ys s))) = work_loads s"
proof (induction ev con ms loc fc lc pc cs r cp off ys s rule: direct_loop.induct)
  case (1 ev con ms loc fc lc pc cs r cp off ys s)
  show ?case
    apply (subst direct_loop.simps)
    using 1
    by (auto split: upload_result.splits sum.splits prod.splits
             simp: Let_def invoke_get_file_def work_loads_logged)
qed

lemma work_loads_cdn_loop:
  "cdn_loop fuel ev con ms csn tok key iv fc lc pc cs cp off ys s = Some (exc, ys', s') \<Longrightarrow>
   work_loads s' = work_loads s"
proof (induction fuel arbitrary: cp off ys s pc fc lc cs con)
  case 0
  then show ?case by simp
next
  case (Suc fuel)
  from Suc.prems show ?case
    by (auto simp: invoke_get_cdn_file_def invoke_reupload_cdn_file_def
          invoke_get_cdn_file_hashes_def Let_def work_loads_logged
          split: sum.splits prod.splits cdn_result.splits if_splits dest!: Suc.IH)
qed

lemma work_loads_cdn_branch:
  assumes "cdn_branch fuel ev con ms idx r_dc tok key iv fc lc pc cs off s = Some (exc, ys, s')"
  shows "work_loads s' = work_loads s"
proof -
  let ?s0 = "bump_cdn_count idx s"
  show ?thesis
  proof (cases "fst (auth_create ev r_dc ?s0)")
    case (Inl e)
    then have "cdn_branch fuel ev con ms idx r_dc tok key iv fc lc pc cs off s
                 = Some (Some e, [], snd (auth_create ev r_dc ?s0))"
      by (simp add: cdn_branch_def case_prod_beta)
    with assms have "s' = snd (auth_create ev r_dc ?s0)" by simp
    then show ?thesis by (simp add: work_loads_auth_create work_loads_bump)
  next
    case (Inr k)
    let ?s1 = "snd (auth_create ev r_dc ?s0)"
    let ?csn = "fst (new_session r_dc True ?s1)"
    let ?s2 = "snd (new_session r_dc True ?s1)"
    have w2: "work_loads ?s2 = work_loads s"
      by (simp add: work_loads_new_session work_loads_auth_create work_loads_bump)
    show ?thesis
    proof (cases "fst (session_start ev ?csn ?s2)")
      case (Inl e)
      with Inr have "cdn_branch fuel ev con ms idx r_dc tok key iv fc lc pc cs off s
                 = Some (Some e, [], session_stop ?csn (snd (session_start ev ?csn ?s2)))"
        by (simp add: cdn_branch_def cdn_finally_def case_prod_beta)
      with assms have "s' = session_stop ?csn (snd (session_start ev ?csn ?s2))" by simp
      then show ?thesis by (simp add: work_loads_session_stop work_loads_session_start w2)
    next
      case (Inr u)
      let ?s3 = "snd (session_start ev ?csn ?s2)"
      from Inr \<open>fst (auth_create ev r_dc ?s0) = Inr k\<close>
      have eq: "cdn_branch fuel ev con ms idx r_dc tok key iv fc lc pc cs off s
                 = map_option (cdn_finally ?csn)
                     (cdn_loop fuel ev con ms ?csn tok key iv fc lc pc cs 1 off [] ?s3)"
        by (simp add: cdn_branch_def case_prod_beta)
      with assms obtain exc0 ys0 s4 where
        l: "cdn_loop fuel ev con ms ?csn tok key iv fc lc pc cs 1 off [] ?s3 = Some (exc0, ys0, s4)"
        and s': "s' = session_stop ?csn s4"
        by (auto simp: cdn_finally_def split: prod.splits)
      from work_loads_cdn_loop[OF l] have "work_loads s4 = work_loads ?s3" .
      then show ?thesis using s' by (simp add: work_loads_session_stop work_loads_session_start w2)
    qed
  qed
qed

lemma work_loads_stream_body:
  assumes "stream_body fuel ev con ms idx loc off fc lc pc cs s = Some (exc, ys, s')"
  shows "work_loads s' = work_loads s"
proof (cases "env_get_file ev (now s) loc off cs")
  case (Inl e)
  with assms show ?thesis
    by (auto simp: stream_body_def invoke_get_file_def work_loads_logged)
next
  case (Inr r)
  let ?s1 = "logged (CallGetFile ms off cs) s"
  show ?thesis
  proof (cases r)
    case (File b)
    with Inr assms have "(exc, ys, s') = direct_loop ev con ms loc fc lc pc cs r 1 off [] ?s1"
      by (simp add: stream_body_def invoke_get_file_def)
    then have "s' = snd (snd (direct_loop ev con ms loc fc lc pc cs r 1 off [] ?s1))"
      by (metis snd_conv)
    then show ?thesis by (simp add: work_loads_direct_loop work_loads_logged)
  next
    case (FileCdnRedirect r_dc tok key iv)
    with Inr assms have "cdn_branch fuel ev con ms idx r_dc tok key iv fc lc pc cs off ?s1
                           = Some (exc, ys, s')"
      by (simp add: stream_body_def invoke_get_file_def)
    from work_loads_cdn_branch[OF this] show ?thesis by (simp add: work_loads_logged)
  next
    case OtherResult
    with Inr assms show ?thesis
      by (auto simp: stream_body_def invoke_get_file_def work_loads_logged)
  qed
qed

lemma work_loads_handlers:
  "work_loads (snd (snd (stream_handlers cl ms dc res))) = work_loads (snd (snd res))"
  by (cases res)
     (auto simp: stream_handlers_def work_loads_session_stop work_loads_pop split: option.splits)

lemma yield_file_after_session:
  assumes mc: "mc (index fid) = Some cl"
    and w: "dict_get (work_loads s) (index fid) = Some w"
    and g: "generate_media_session ev cl fid
              (s\<lparr>work_loads := dict_set (work_loads s) (index fid) (w + 1)\<rparr>) = (Inr ms, s1)"
    and b: "stream_body fuel ev con ms (index fid) (get_location ev fid) off fc lc pc cs s1
              = Some res"
  shows "yield_file fuel ev con fid off fc lc pc cs mc s =
           Some (fst (stream_handlers cl ms (dc_id fid) res),
                 fst (snd (stream_handlers cl ms (dc_id fid) res)),
                 (snd (snd (stream_handlers cl ms (dc_id fid) res)))
                    \<lparr>work_loads := work_loads s\<rparr>)"
proof -
  obtain exc ys s2 where res: "res = (exc, ys, s2)" by (cases res)
  obtain exc' ys' s3 where h: "stream_handlers cl ms (dc_id fid) res = (exc', ys', s3)"
    by (cases "stream_handlers cl ms (dc_id fid) res")
  have "work_loads s1 = dict_set (work_loads s) (index fid) (w + 1)"
    using work_loads_generate[of ev cl fid "s\<lparr>work_loads := dict_set (work_loads s) (index fid) (w + 1)\<rparr>"] g
    by simp
  moreover have "work_loads s2 = work_loads s1"
    using b res work_loads_stream_body by blast
  moreover have "work_loads s3 = work_loads s2"
    using work_loads_handlers[of cl ms "dc_id fid" res] h res by simp
  ultimately have w3: "work_loads s3 = dict_set (work_loads s) (index fid) (w + 1)" by simp
  then have "stream_finally (index fid) (exc', ys', s3) = (exc', ys', s3\<lparr>work_loads := work_loads s\<rparr>)"
    using w by (simp add: stream_finally_def dict_get_set dict_set_twice dict_set_same)
  then show ?thesis using mc w g b h by (simp add: yield_file_def)
qed


lemma yield_file_session_error:
  assumes "mc (index fid) = Some cl" "dict_get (work_loads s) (index fid) = Some w"
    and "generate_media_session ev cl fid
           (s\<lparr>work_loads := dict_set (work_loads s) (index fid) (w + 1)\<rparr>) = (Inl e, s1)"
  shows "yield_file fuel ev con fid off fc lc pc cs mc s = Some (Some e, [], s1)"
    and "work_loads s1 = dict_set (work_loads s) (index fid) (w + 1)"
proof -
  show "yield_file fuel ev con fid off fc lc pc cs mc s = Some (Some e, [], s1)"
    using assms by (simp add: yield_file_def)
  show "work_loads s1 = dict_set (work_loads s) (index fid) (w + 1)"
    using work_loads_generate[of ev cl fid
        "s\<lparr>work_loads := dict_set (work_loads s) (index fid) (w + 1)\<rparr>"] assms(3)
    by simp
qed

text \<open>
  C2. The counter is incremented before \<open>generate_media_session\<close> is awaited, and the
  \<open>try ... finally\<close> that decrements it starts only after it. With a descriptor of
  data center 4 on a connection whose home is 2 and every import answering
  \<open>AuthBytesInvalid\<close>, \<open>yield_file\<close> raises \<open>AuthBytesInvalid\<close> and leaves the counter
  of connection 1 at 2, one above the 1 it had.
\<close>

theorem workload_leak_on_session_error:
  "map_option fst
     (yield_file 0 (example_env\<lparr>env_import_authorization := \<lambda>t sid x. Inl AuthBytesInvalid\<rparr>)
        None example_file 0 0 3 1 3 example_clients example_state)
     = Some (Some AuthBytesInvalid) \<and>
   map_option (\<lambda>r. work_loads (snd (snd r)))
     (yield_file 0 (example_env\<lparr>env_import_authorization := \<lambda>t sid x. Inl AuthBytesInvalid\<rparr>)
        None example_file 0 0 3 1 3 example_clients example_state)
     = Some [(0, 3), (1, 2), (2, 1)] \<and>
   work_loads example_state = [(0, 3), (1, 1), (2, 1)]"
proof -
  let ?fail = "example_env\<lparr>env_import_authorization := \<lambda>t sid x. Inl AuthBytesInvalid\<rparr>"
  let ?s = "example_state\<lparr>work_loads := dict_set (work_loads example_state) (index example_file) (1 + 1)\<rparr>"
  let ?s1 = "logged (CallAuthCreate 4) ?s"
  let ?s2 = "snd (new_session 4 False ?s1)"
  let ?s3 = "snd (session_start ?fail 0 ?s2)"
  have all: "\<forall>k<6. export_ok ?fail (now ?s3) 4 k \<and>
                 import_answer ?fail (now ?s3) 4 0 k = Inl AuthBytesInvalid"
    by (simp add: export_ok_def import_answer_def example_env_def)
  note loop = import_loop_all_fail[OF all]
  have pre: "4 \<noteq> home_dc (clients ?s 1)" "auth_create ?fail 4 ?s = (Inr [7], ?s1)"
     "new_session 4 False ?s1 = (0, ?s2)" "session_start ?fail 0 ?s2 = (Inr (), ?s3)"
    by (simp_all add: auth_create_def new_session_def session_start_def example_env_def
          example_state_def logged_def now_def)
  have create: "create_media_session ?fail 1 4 ?s
     = (Inl AuthBytesInvalid, session_stop 0 (?s3\<lparr>calls := calls ?s3 @ attempt_calls 4 0 6\<rparr>))"
    by (rule create_media_session_import_error[OF pre loop])
  have drop: "drop_disconnected 1 4 ?s = (None, ?s)"
    by (simp add: drop_disconnected_def example_state_def)
  have gen: "generate_media_session ?fail 1 example_file ?s
     = (Inl AuthBytesInvalid, session_stop 0 (?s3\<lparr>calls := calls ?s3 @ attempt_calls 4 0 6\<rparr>))"
    using drop create by (simp add: generate_media_session_def example_file_def)
  have mc: "example_clients (index example_file) = Some 1"
    by (simp add: example_clients_def example_file_def)
  have w: "dict_get (work_loads example_state) (index example_file) = Some 1"
    by (simp add: dict_get_def example_state_def example_file_def)
  note r = yield_file_session_error[where mc = example_clients and fid = example_file and cl = 1
      and s = example_state and w = 1 and ev = ?fail and e = AuthBytesInvalid, OF mc w gen]
  have wl: "dict_set (work_loads example_state) (index example_file) (1 + 1) = [(0, 3), (1, 2), (2, 1)]"
    by (simp add: example_state_def example_file_def)
  show ?thesis using r(1)[of 0 None 0 0 3 1 3] r(2) wl
    by (simp add: example_state_def)
qed


section \<open>Streaming: transport errors\<close>

lemma drop_disconnected_absent:
  "media_sessions (clients s cl) dc = None \<Longrightarrow> drop_disconnected cl dc s = (None, s)"
  by (simp add: drop_disconnected_def)

text \<open>
  C8. When the body of the \<open>try\<close> raises an \<open>OSError\<close> (one that is not a
  \<open>TimeoutError\<close>, which the earlier handler swallows), \<open>yield_file\<close> raises
  \<open>OSError\<close>; in the state it leaves, the client's session table has no entry for the
  descriptor's data center, the media session is stopped, and the next
  \<open>generate_media_session\<close> for that descriptor creates a session anew.
\<close>

theorem transport_error_invalidates_session:
  "mc (index fid) = Some cl \<Longrightarrow> dict_get (work_loads s) (index fid) = Some w \<Longrightarrow>
   generate_media_session ev cl fid
     (s\<lparr>work_loads := dict_set (work_loads s) (index fid) (w + 1)\<rparr>) = (Inr ms, s1) \<Longrightarrow>
   stream_body fuel ev con ms (index fid) (get_location ev fid) off fc lc pc cs s1
     = Some (Some OSError, ys, s2) \<Longrightarrow>
   (let s3 = (session_stop ms (pop_media_session cl (dc_id fid) s2))\<lparr>work_loads := work_loads s\<rparr>
    in yield_file fuel ev con fid off fc lc pc cs mc s = Some (Some OSError, ys, s3) \<and>
       media_sessions (clients s3 cl) (dc_id fid) = None \<and>
       \<not> is_started (sessions s3 ms) \<and>
       stop_calls (sessions s3 ms) = Suc (stop_calls (sessions s2 ms)) \<and>
       generate_media_session ev cl fid s3 = create_media_session ev cl (dc_id fid) s3)"
proof -
  assume mc: "mc (index fid) = Some cl" and w: "dict_get (work_loads s) (index fid) = Some w"
    and g: "generate_media_session ev cl fid
     (s\<lparr>work_loads := dict_set (work_loads s) (index fid) (w + 1)\<rparr>) = (Inr ms, s1)"
    and b: "stream_body fuel ev con ms (index fid) (get_location ev fid) off fc lc pc cs s1
     = Some (Some OSError, ys, s2)"
  let ?s3 = "(session_stop ms (pop_media_session cl (dc_id fid) s2))\<lparr>work_loads := work_loads s\<rparr>"
  have h: "stream_handlers cl ms (dc_id fid) (Some OSError, ys, s2)
             = (Some OSError, ys, session_stop ms (pop_media_session cl (dc_id fid) s2))"
    by (simp add: stream_handlers_def)
  have y: "yield_file fuel ev con fid off fc lc pc cs mc s = Some (Some OSError, ys, ?s3)"
    using yield_file_after_session[where mc = mc and fid = fid and cl = cl and s = s and w = w,
        OF mc w g b] h by simp
  have t: "media_sessions (clients ?s3 cl) (dc_id fid) = None"
    by (simp add: session_stop_def pop_media_session_def logged_def)
  have st: "\<not> is_started (sessions ?s3 ms)"
       "stop_calls (sessions ?s3 ms) = Suc (stop_calls (sessions s2 ms))"
    by (simp_all add: session_stop_def pop_media_session_def logged_def)
  have n: "generate_media_session ev cl fid ?s3 = create_media_session ev cl (dc_id fid) ?s3"
    using drop_disconnected_absent[OF t] by (simp add: generate_media_session_def)
  show ?thesis using y t st n by (simp add: Let_def)
qed

theorem transport_error_invalidates_session_witness:
  "map_option fst
     (yield_file 0 (example_env\<lparr>env_get_file := \<lambda>t loc offset lim. Inl OSError\<rparr>) None
        (example_file\<lparr>dc_id := 2\<rparr>) 0 0 3 1 3 example_clients example_state)
     = Some (Some OSError) \<and>
   map_option (\<lambda>r. media_sessions (clients (snd (snd r)) 1) 2)
     (yield_file 0 (example_env\<lparr>env_get_file := \<lambda>t loc offset lim. Inl OSError\<rparr>) None
        (example_file\<lparr>dc_id := 2\<rparr>) 0 0 3 1 3 example_clients example_state)
     = Some None \<and>
   map_option (\<lambda>r. is_started (sessions (snd (snd r)) 0))
     (yield_file 0 (example_env\<lparr>env_get_file := \<lambda>t loc offset lim. Inl OSError\<rparr>) None
        (example_file\<lparr>dc_id := 2\<rparr>) 0 0 3 1 3 example_clients example_state)
     = Some False \<and>
   map_option (\<lambda>r. stop_calls (sessions (snd (snd r)) 0))
     (yield_file 0 (example_env\<lparr>env_get_file := \<lambda>t loc offset lim. Inl OSError\<rparr>) None
        (example_file\<lparr>dc_id := 2\<rparr>) 0 0 3 1 3 example_clients example_state)
     = Some 1"
proof -
  let ?ev = "example_env\<lparr>env_get_file := \<lambda>t loc offset lim. Inl OSError\<rparr>"
  let ?fid = "example_file\<lparr>dc_id := 2\<rparr>"
  let ?s0 = "example_state\<lparr>work_loads := dict_set (work_loads example_state) (index ?fid) (1 + 1)\<rparr>"
  let ?s1 = "snd (generate_media_session ?ev 1 ?fid ?s0)"
  let ?s2 = "logged (CallGetFile 0 0 3) ?s1"
  have mc: "example_clients (index ?fid) = Some 1"
    by (simp add: example_clients_def example_file_def)
  have w: "dict_get (work_loads example_state) (index ?fid) = Some 1"
    by (simp add: dict_get_def example_state_def example_file_def)
  have "fst (generate_media_session ?ev 1 ?fid ?s0) = Inr 0"
    by (simp add: generate_media_session_def drop_disconnected_def create_media_session_def
          new_session_def session_start_def register_media_session_def example_env_def
          example_state_def example_file_def logged_def now_def)
  then have g: "generate_media_session ?ev 1 ?fid ?s0 = (Inr 0, ?s1)"
    by (metis prod.collapse)
  have b: "stream_body 0 ?ev None 0 (index ?fid) (get_location ?ev ?fid) 0 0 3 1 3 ?s1
             = Some (Some OSError, [], ?s2)"
    by (simp add: stream_body_def invoke_get_file_def example_env_def)
  have stops: "stop_calls (sessions ?s2 0) = 0"
    by (simp add: generate_media_session_def drop_disconnected_def create_media_session_def
          new_session_def session_start_def register_media_session_def example_env_def
          example_state_def example_file_def logged_def now_def)
  have dc: "dc_id ?fid = 2" by simp
  from transport_error_invalidates_session[where mc = example_clients and fid = ?fid
      and cl = 1 and s = example_state and w = 1 and ev = ?ev and ms = 0 and ?s1.0 = ?s1
      and ?s2.0 = ?s2 and ys = "[]", OF mc w g b] stops
  show ?thesis unfolding Let_def dc by simp
qed


section \<open>Streaming: the CDN branch\<close>














section \<open>Streaming: the chunks yielded\<close>

lemma expected_yields_length: "length (expected_yields fc lc pc chunks) = length chunks"
  by (simp add: expected_yields_def)

lemma expected_yields_nth:
  "k < length chunks \<Longrightarrow>
   expected_yields fc lc pc chunks ! k = slice_policy fc lc pc (int k + 1) (chunks ! k)"
  by (simp add: expected_yields_def)

lemma expected_yields_take_Suc:
  "j < length chunks \<Longrightarrow>
   take j (expected_yields fc lc pc chunks) @ [slice_policy fc lc pc (int j + 1) (chunks ! j)]
     = take (Suc j) (expected_yields fc lc pc chunks)"
  by (simp add: take_Suc_conv_app_nth expected_yields_length expected_yields_nth)

lemma fetch_calls_Suc:
  "fetch_calls ms offset cs (Suc n) =
     fetch_calls ms offset cs n @ [CallGetFile ms (offset + int n * cs) cs]"
  by (simp add: fetch_calls_def)

lemma direct_loop_File:
  "c \<noteq> [] \<Longrightarrow> \<not> closes_after con (Suc (length ys)) \<Longrightarrow>
   direct_loop ev con ms loc fc lc pc cs (File c) cp off ys st =
     (if cp + 1 > pc then (None, ys @ [slice_policy fc lc pc cp c], st)
      else (case invoke_get_file ev ms loc (off + cs) cs st of
              (Inl e, s1) \<Rightarrow> (Some e, ys @ [slice_policy fc lc pc cp c], s1)
            | (Inr r1, s1) \<Rightarrow>
                direct_loop ev con ms loc fc lc pc cs r1 (cp + 1) (off + cs)
                  (ys @ [slice_policy fc lc pc cp c]) s1))"
  by (subst direct_loop.simps)
     (simp add: Let_def slice_policy_def split: prod.splits sum.splits)

lemma direct_loop_parts:
  assumes pc: "1 \<le> pc" and len: "length chunks = nat pc"
    and fetch: "\<forall>k<length chunks.
        env_get_file ev (t + k) loc (offset + int k * cs) cs = Inr (File (chunks ! k)) \<and>
        chunks ! k \<noteq> []"
    and t: "t = now s"
  shows "d = length chunks - Suc j \<Longrightarrow> j < length chunks \<Longrightarrow>
         direct_loop ev None ms loc fc lc pc cs (File (chunks ! j)) (int j + 1)
           (offset + int j * cs) (take j (expected_yields fc lc pc chunks))
           (s\<lparr>calls := calls s @ fetch_calls ms offset cs (Suc j)\<rparr>)
         = (None, expected_yields fc lc pc chunks,
            s\<lparr>calls := calls s @ fetch_calls ms offset cs (length chunks)\<rparr>)"
proof (induction d arbitrary: j)
  case 0
  then have last: "Suc j = length chunks" by simp
  then have gt: "int j + 1 + 1 > pc" using len pc by linarith
  have ne: "chunks ! j \<noteq> []" using fetch 0(2) by blast
  have nc: "\<not> closes_after None (Suc (length (take j (expected_yields fc lc pc chunks))))"
    by (simp add: closes_after_def)
  have full: "take (Suc j) (expected_yields fc lc pc chunks) = expected_yields fc lc pc chunks"
    using last by (simp add: expected_yields_length)
  show ?case
    using gt last full expected_yields_take_Suc[OF 0(2), of fc lc pc]
    by (simp add: direct_loop_File[OF ne nc])
next
  case (Suc d)
  then have more: "Suc j < length chunks" by simp
  then have le: "\<not> int j + 1 + 1 > pc" using len pc by linarith
  have ne: "chunks ! j \<noteq> []" using fetch Suc(3) by blast
  have nc: "\<not> closes_after None (Suc (length (take j (expected_yields fc lc pc chunks))))"
    by (simp add: closes_after_def)
  let ?sj = "s\<lparr>calls := calls s @ fetch_calls ms offset cs (Suc j)\<rparr>"
  have nowj: "now ?sj = t + Suc j" using t by (simp add: now_def fetch_calls_def)
  have off: "offset + int j * cs + cs = offset + int (Suc j) * cs"
    by (simp add: algebra_simps)
  have inv: "invoke_get_file ev ms loc (offset + int j * cs + cs) cs ?sj
     = (Inr (File (chunks ! Suc j)),
        s\<lparr>calls := calls s @ fetch_calls ms offset cs (Suc (Suc j))\<rparr>)"
  proof -
    have "env_get_file ev (t + Suc j) loc (offset + int (Suc j) * cs) cs
            = Inr (File (chunks ! Suc j))"
      using fetch more by blast
    then show ?thesis unfolding invoke_get_file_def nowj off
      by (simp add: logged_def fetch_calls_Suc del: of_nat_Suc)
  qed
  have cp: "int j + 1 + 1 = int (Suc j) + 1" by simp
  have d: "d = length chunks - Suc (Suc j)" using Suc(2) by simp
  have step: "direct_loop ev None ms loc fc lc pc cs (File (chunks ! j)) (int j + 1)
           (offset + int j * cs) (take j (expected_yields fc lc pc chunks)) ?sj
     = direct_loop ev None ms loc fc lc pc cs (File (chunks ! Suc j)) (int (Suc j) + 1)
           (offset + int (Suc j) * cs) (take (Suc j) (expected_yields fc lc pc chunks))
           (s\<lparr>calls := calls s @ fetch_calls ms offset cs (Suc (Suc j))\<rparr>)"
    using le inv expected_yields_take_Suc[OF Suc(3), of fc lc pc]
    by (simp add: direct_loop_File[OF ne nc] algebra_simps)
  show ?case unfolding step using Suc.IH[OF d more] .
qed

lemma stream_body_direct:
  assumes "1 \<le> pc" "length chunks = nat pc"
    and "\<forall>k<length chunks.
        env_get_file ev (now s + k) loc (offset + int k * cs) cs = Inr (File (chunks ! k)) \<and>
        chunks ! k \<noteq> []"
  shows "stream_body fuel ev None ms idx loc offset fc lc pc cs s =
           Some (None, expected_yields fc lc pc chunks,
                 s\<lparr>calls := calls s @ fetch_calls ms offset cs (length chunks)\<rparr>)"
proof -
  have pos: "0 < length chunks" using assms(1,2) by simp
  then have f0: "env_get_file ev (now s) loc offset cs = Inr (File (chunks ! 0))"
    using assms(3) by force
  have l: "direct_loop ev None ms loc fc lc pc cs (File (chunks ! 0)) (int 0 + 1)
           (offset + int 0 * cs) (take 0 (expected_yields fc lc pc chunks))
           (s\<lparr>calls := calls s @ fetch_calls ms offset cs (Suc 0)\<rparr>)
         = (None, expected_yields fc lc pc chunks,
            s\<lparr>calls := calls s @ fetch_calls ms offset cs (length chunks)\<rparr>)"
    by (rule direct_loop_parts[OF assms(1,2,3) refl refl pos])
  show ?thesis using f0 l
    by (simp add: stream_body_def invoke_get_file_def logged_def fetch_calls_def)
qed


lemma cdn_part_shift:
  "cdn_part ev (t + 2) token key iv (offset + cs) cs k
     = cdn_part ev t token key iv offset cs (Suc k)"
proof -
  have a: "t + 2 + 2 * k = t + 2 * Suc k" by simp
  have b: "offset + cs + int k * cs = offset + int (Suc k) * cs" by (simp add: algebra_simps)
  show ?thesis unfolding cdn_part_def a b ..
qed

lemma cdn_calls_Suc:
  "cdn_calls ms csn offset cs (Suc n) =
     [CallGetCdnFile csn offset cs, CallGetCdnFileHashes ms offset]
       @ cdn_calls ms csn (offset + cs) cs n"
proof -
  have "map (\<lambda>k. [CallGetCdnFile csn (offset + int k * cs) cs,
                   CallGetCdnFileHashes ms (offset + int k * cs)]) [0..<Suc n]
        = [CallGetCdnFile csn offset cs, CallGetCdnFileHashes ms offset]
          # map (\<lambda>k. [CallGetCdnFile csn (offset + cs + int k * cs) cs,
                        CallGetCdnFileHashes ms (offset + cs + int k * cs)]) [0..<n]"
    by (simp add: upt_conv_Cons map_Suc_upt[symmetric] algebra_simps del: upt_Suc)
  then show ?thesis unfolding cdn_calls_def by simp
qed

lemma cdn_loop_part:
  assumes "cdn_part ev (now s) token key iv offset cs 0 = Some c" "c \<noteq> []"
    and "\<not> closes_after con (Suc (length ys))"
  shows "cdn_loop (Suc fuel) ev con ms csn token key iv fc lc pc cs cp offset ys s =
     (if cp + 1 > pc
      then Some (None, ys @ [slice_policy fc lc pc cp c],
                 s\<lparr>calls := calls s @ [CallGetCdnFile csn offset cs, CallGetCdnFileHashes ms offset]\<rparr>)
      else cdn_loop fuel ev con ms csn token key iv fc lc pc cs (cp + 1) (offset + cs)
             (ys @ [slice_policy fc lc pc cp c])
             (s\<lparr>calls := calls s @ [CallGetCdnFile csn offset cs, CallGetCdnFileHashes ms offset]\<rparr>))"
  using assms
  by (auto simp: cdn_part_def invoke_get_cdn_file_def invoke_get_cdn_file_hashes_def now_logged
        logged_twice Let_def slice_policy_def
        split: sum.splits cdn_result.splits if_splits)

lemma cdn_loop_parts:
  "\<forall>k<length chunks. cdn_part ev (now s) token key iv offset cs k = Some (chunks ! k) \<and>
      chunks ! k \<noteq> [] \<Longrightarrow>
   chunks \<noteq> [] \<Longrightarrow> cp + int (length chunks) = pc + 1 \<Longrightarrow>
   cdn_loop (length chunks + extra) ev None ms csn token key iv fc lc pc cs cp offset ys s =
     Some (None,
           ys @ map (\<lambda>k. slice_policy fc lc pc (cp + int k) (chunks ! k)) [0..<length chunks],
           s\<lparr>calls := calls s @ cdn_calls ms csn offset cs (length chunks)\<rparr>)"
proof (induction chunks arbitrary: s offset cp ys)
  case Nil
  then show ?case by simp
next
  case (Cons c rest)
  let ?s2 = "s\<lparr>calls := calls s @ [CallGetCdnFile csn offset cs, CallGetCdnFileHashes ms offset]\<rparr>"
  from Cons.prems(1) have c0: "cdn_part ev (now s) token key iv offset cs 0 = Some c" "c \<noteq> []"
    by auto
  have nc: "\<not> closes_after None (Suc (length ys))" by (simp add: closes_after_def)
  note step = cdn_loop_part[OF c0 nc, where fuel = "length rest + extra" and ms = ms
      and csn = csn and fc = fc and lc = lc and pc = pc and cp = cp]
  have fuel: "length (c # rest) + extra = Suc (length rest + extra)" by simp
  have mp: "map (\<lambda>k. slice_policy fc lc pc (cp + int k) ((c # rest) ! k)) [0..<length (c # rest)]
      = slice_policy fc lc pc cp c
        # map (\<lambda>k. slice_policy fc lc pc (cp + 1 + int k) (rest ! k)) [0..<length rest]"
    by (simp add: upt_conv_Cons map_Suc_upt[symmetric] add.assoc del: upt_Suc)
  show ?case
  proof (cases rest)
    case Nil
    then have "cp + 1 > pc" using Cons.prems(3) by simp
    then show ?thesis unfolding fuel step using Nil by (simp add: cdn_calls_def)
  next
    case (Cons c' rest')
    then have le: "\<not> cp + 1 > pc" using Cons.prems(3) by simp
    have now2: "now ?s2 = now s + 2" by (simp add: now_def)
    have h: "\<forall>k<length rest. cdn_part ev (now ?s2) token key iv (offset + cs) cs k = Some (rest ! k) \<and>
      rest ! k \<noteq> []"
    proof (intro allI impI)
      fix k assume "k < length rest"
      then have "Suc k < length (c # rest)" by simp
      with Cons.prems(1) have "cdn_part ev (now s) token key iv offset cs (Suc k)
          = Some ((c # rest) ! Suc k) \<and> (c # rest) ! Suc k \<noteq> []" by blast
      then show "cdn_part ev (now ?s2) token key iv (offset + cs) cs k = Some (rest ! k) \<and>
          rest ! k \<noteq> []"
        unfolding now2 cdn_part_shift by simp
    qed
    have ne: "rest \<noteq> []" using Cons by simp
    have cnt: "cp + 1 + int (length rest) = pc + 1" using Cons.prems(3) by simp
    note ih = Cons.IH[OF h ne cnt, where ys = "ys @ [slice_policy fc lc pc cp c]"]
    show ?thesis unfolding fuel step if_not_P[OF le] ih mp
      by (simp add: cdn_calls_Suc)
  qed
qed

lemma expected_yields_alt:
  "expected_yields fc lc pc chunks
     = map (\<lambda>k. slice_policy fc lc pc (1 + int k) (chunks ! k)) [0..<length chunks]"
  by (simp add: expected_yields_def add.commute)

lemma cdn_stream:
  assumes "1 \<le> pc" "length chunks = nat pc"
    and "\<forall>k<length chunks. cdn_part ev (now s) token key iv offset cs k = Some (chunks ! k) \<and>
           chunks ! k \<noteq> []"
  shows "cdn_loop (length chunks + extra) ev None ms csn token key iv fc lc pc cs 1 offset [] s =
     Some (None, expected_yields fc lc pc chunks,
           s\<lparr>calls := calls s @ cdn_calls ms csn offset cs (length chunks)\<rparr>)"
proof -
  have ne: "chunks \<noteq> []" using assms(1,2) by auto
  have cnt: "1 + int (length chunks) = pc + 1" using assms(1,2) by simp
  show ?thesis using cdn_loop_parts[OF assms(3) ne cnt, where extra = extra and ms = ms and csn = csn
        and fc = fc and lc = lc and ys = "[]"]
    by (simp add: expected_yields_alt)
qed

lemma expected_yields_concat:
  assumes "1 < pc" "length chunks = nat pc"
  shows "concat (expected_yields fc lc pc chunks) =
     py_slice (Some fc) None (hd chunks) @ concat (butlast (tl chunks))
       @ py_slice None (Some lc) (last chunks)"
proof -
  from assms have len2: "2 \<le> length chunks" by simp
  then obtain c0 rest where c: "chunks = c0 # rest" by (cases chunks) auto
  with len2 have "rest \<noteq> []" by auto
  then obtain mid cl where r: "rest = mid @ [cl]" by (metis append_butlast_last_id)
  have n: "pc = int (length mid) + 2" using assms c r by simp
  have "expected_yields fc lc pc chunks
          = py_slice (Some fc) None c0 # mid @ [py_slice None (Some lc) cl]"
  proof (rule nth_equalityI)
    show "length (expected_yields fc lc pc chunks)
            = length (py_slice (Some fc) None c0 # mid @ [py_slice None (Some lc) cl])"
      by (simp add: expected_yields_length c r)
  next
    fix k assume "k < length (expected_yields fc lc pc chunks)"
    then have k: "k < length mid + 2" by (simp add: expected_yields_length c r)
    then have e: "expected_yields fc lc pc chunks ! k
                    = slice_policy fc lc pc (int k + 1) (chunks ! k)"
      by (simp add: expected_yields_nth c r)
    consider "k = 0" | "0 < k" "k \<le> length mid" | "k = Suc (length mid)" using k by linarith
    then show "expected_yields fc lc pc chunks ! k
                 = (py_slice (Some fc) None c0 # mid @ [py_slice None (Some lc) cl]) ! k"
    proof cases
      case 1
      then show ?thesis unfolding e using n by (simp add: slice_policy_def c)
    next
      case 2
      then obtain i where i: "k = Suc i" "i < length mid" by (cases k) auto
      then show ?thesis unfolding e using n by (simp add: slice_policy_def c r nth_append)
    next
      case 3
      then show ?thesis unfolding e using n by (simp add: slice_policy_def c r nth_append)
    qed
  qed
  then show ?thesis by (simp add: c r)
qed


lemma direct_loop_empty:
  "direct_loop ev con ms loc fc lc pc cs (File []) cp off ys st = (None, ys, st)"
  by (subst direct_loop.simps) simp

lemma cdn_loop_empty:
  assumes "cdn_part ev (now st) token key iv off cs 0 = Some []"
  shows "cdn_loop (Suc fuel) ev con ms csn token key iv fc lc pc cs cp off ys st =
           Some (None, ys,
                 st\<lparr>calls := calls st @ [CallGetCdnFile csn off cs, CallGetCdnFileHashes ms off]\<rparr>)"
  using assms
  by (auto simp: cdn_part_def invoke_get_cdn_file_def invoke_get_cdn_file_hashes_def now_logged
        logged_twice Let_def split: sum.splits cdn_result.splits if_splits)

lemma yield_file_direct:
  assumes mc: "mc (index fid) = Some cl"
    and w: "dict_get (work_loads s) (index fid) = Some w"
    and g: "generate_media_session ev cl fid
              (s\<lparr>work_loads := dict_set (work_loads s) (index fid) (w + 1)\<rparr>) = (Inr ms, s1)"
    and pc: "1 \<le> pc" and len: "length chunks = nat pc"
    and fetch: "\<forall>k<length chunks.
        env_get_file ev (now s1 + k) (get_location ev fid) (offset + int k * cs) cs
          = Inr (File (chunks ! k)) \<and> chunks ! k \<noteq> []"
  shows "yield_file fuel ev None fid offset fc lc pc cs mc s =
           Some (None, expected_yields fc lc pc chunks,
                 s1\<lparr>calls := calls s1 @ fetch_calls ms offset cs (length chunks),
                    work_loads := work_loads s\<rparr>)"
proof -
  note b = stream_body_direct[OF pc len fetch, of fuel ms "index fid" fc lc]
  have h: "stream_handlers cl ms (dc_id fid)
             (None, expected_yields fc lc pc chunks,
              s1\<lparr>calls := calls s1 @ fetch_calls ms offset cs (length chunks)\<rparr>)
           = (None, expected_yields fc lc pc chunks,
              s1\<lparr>calls := calls s1 @ fetch_calls ms offset cs (length chunks)\<rparr>)"
    by (simp add: stream_handlers_def)
  show ?thesis
    using yield_file_after_session[where mc = mc and fid = fid and cl = cl and s = s and w = w,
        OF mc w g b] h
    by simp
qed

text \<open>
  C1. With \<open>part_count \<ge> 1\<close>, a consumer that iterates to the end, and
  every fetch answering with a non-empty chunk, \<open>yield_file\<close> makes \<open>part_count\<close>
  fetches, the \<open>k\<close>-th at \<open>offset + k * chunk_size\<close>, and yields \<open>part_count\<close> chunks,
  the \<open>k\<close>-th being the fetched chunk cut by the slicing policy; it ends normally with
  the workload table as it was. For \<open>part_count > 1\<close> the chunks yielded concatenate to
  \<open>chunk0[first_cut:] + chunk1 + ... + chunkN[:last_cut]\<close>. The CDN loop yields the
  decrypted chunks cut by the same policy. An empty chunk ends either loop with nothing
  more yielded.
\<close>

theorem stream_yields_sliced_parts:
  "(mc (index fid) = Some cl \<and> dict_get (work_loads s) (index fid) = Some w \<and>
    generate_media_session ev cl fid
      (s\<lparr>work_loads := dict_set (work_loads s) (index fid) (w + 1)\<rparr>) = (Inr ms, s1) \<and>
    1 \<le> pc \<and> length chunks = nat pc \<and>
    (\<forall>k<length chunks.
        env_get_file ev (now s1 + k) (get_location ev fid) (offset + int k * cs) cs
          = Inr (File (chunks ! k)) \<and> chunks ! k \<noteq> []) \<longrightarrow>
      yield_file fuel ev None fid offset fc lc pc cs mc s =
        Some (None, expected_yields fc lc pc chunks,
              s1\<lparr>calls := calls s1 @ fetch_calls ms offset cs (length chunks),
                 work_loads := work_loads s\<rparr>)) \<and>
   length (expected_yields fc lc pc chunks) = length chunks \<and>
   (\<forall>k<length chunks.
      expected_yields fc lc pc chunks ! k = slice_policy fc lc pc (int k + 1) (chunks ! k)) \<and>
   (1 < pc \<and> length chunks = nat pc \<longrightarrow>
      concat (expected_yields fc lc pc chunks) =
        py_slice (Some fc) None (hd chunks) @ concat (butlast (tl chunks))
          @ py_slice None (Some lc) (last chunks)) \<and>
   (1 \<le> pc \<and> length chunks = nat pc \<and>
    (\<forall>k<length chunks. cdn_part ev (now st) token key iv offset cs k = Some (chunks ! k) \<and>
        chunks ! k \<noteq> []) \<longrightarrow>
      cdn_loop (length chunks + extra) ev None ms csn token key iv fc lc pc cs 1 offset [] st =
        Some (None, expected_yields fc lc pc chunks,
              st\<lparr>calls := calls st @ cdn_calls ms csn offset cs (length chunks)\<rparr>)) \<and>
   direct_loop ev con ms loc fc lc pc cs (File []) cp off ys st = (None, ys, st) \<and>
   (cdn_part ev (now st) token key iv off cs 0 = Some [] \<longrightarrow>
      cdn_loop (Suc fuel) ev con ms csn token key iv fc lc pc cs cp off ys st =
        Some (None, ys,
              st\<lparr>calls := calls st @ [CallGetCdnFile csn off cs, CallGetCdnFileHashes ms off]\<rparr>))"
proof (intro conjI impI allI)
  assume "mc (index fid) = Some cl \<and> dict_get (work_loads s) (index fid) = Some w \<and>
    generate_media_session ev cl fid
      (s\<lparr>work_loads := dict_set (work_loads s) (index fid) (w + 1)\<rparr>) = (Inr ms, s1) \<and>
    1 \<le> pc \<and> length chunks = nat pc \<and>
    (\<forall>k<length chunks.
        env_get_file ev (now s1 + k) (get_location ev fid) (offset + int k * cs) cs
          = Inr (File (chunks ! k)) \<and> chunks ! k \<noteq> [])"
  then show "yield_file fuel ev None fid offset fc lc pc cs mc s =
        Some (None, expected_yields fc lc pc chunks,
              s1\<lparr>calls := calls s1 @ fetch_calls ms offset cs (length chunks),
                 work_loads := work_loads s\<rparr>)"
    by (intro yield_file_direct[where cl = cl and w = w]) auto
next
  show "length (expected_yields fc lc pc chunks) = length chunks"
    by (rule expected_yields_length)
next
  fix k assume "k < length chunks"
  then show "expected_yields fc lc pc chunks ! k = slice_policy fc lc pc (int k + 1) (chunks ! k)"
    by (rule expected_yields_nth)
next
  assume "1 < pc \<and> length chunks = nat pc"
  then show "concat (expected_yields fc lc pc chunks) =
        py_slice (Some fc) None (hd chunks) @ concat (butlast (tl chunks))
          @ py_slice None (Some lc) (last chunks)"
    by (intro expected_yields_concat) auto
next
  assume "1 \<le> pc \<and> length chunks = nat pc \<and>
    (\<forall>k<length chunks. cdn_part ev (now st) token key iv offset cs k = Some (chunks ! k) \<and>
        chunks ! k \<noteq> [])"
  then show "cdn_loop (length chunks + extra) ev None ms csn token key iv fc lc pc cs 1 offset [] st =
        Some (None, expected_yields fc lc pc chunks,
              st\<lparr>calls := calls st @ cdn_calls ms csn offset cs (length chunks)\<rparr>)"
    by (intro cdn_stream) auto
next
  show "direct_loop ev con ms loc fc lc pc cs (File []) cp off ys st = (None, ys, st)"
    by (rule direct_loop_empty)
next
  assume "cdn_part ev (now st) token key iv off cs 0 = Some []"
  then show "cdn_loop (Suc fuel) ev con ms csn token key iv fc lc pc cs cp off ys st =
        Some (None, ys,
              st\<lparr>calls := calls st @ [CallGetCdnFile csn off cs, CallGetCdnFileHashes ms off]\<rparr>)"
    by (rule cdn_loop_empty)
qed

theorem part_count_zero_yields_one_chunk:
  "map_option (fst \<circ> snd)
     (yield_file 0 example_env None (example_file\<lparr>dc_id := 2\<rparr>) 0 0 3 0 3
        example_clients example_state)
     = Some [[1, 2, 3]]"
  by (simp add: yield_file_def generate_media_session_def drop_disconnected_def
        create_media_session_def new_session_def session_start_def register_media_session_def
        stream_body_def invoke_get_file_def direct_loop.simps stream_handlers_def
        stream_finally_def get_location_def closes_after_def py_slice_def py_clamp_def
        dict_get_def example_env_def example_state_def example_file_def example_clients_def
        logged_def now_def Let_def)


theorem stream_yields_sliced_parts_witness:
  "map_option fst
     (yield_file 0 example_env None (example_file\<lparr>dc_id := 2\<rparr>) 0 1 2 3 3
        example_clients example_state) = Some None \<and>
   map_option (fst \<circ> snd)
     (yield_file 0 example_env None (example_file\<lparr>dc_id := 2\<rparr>) 0 1 2 3 3
        example_clients example_state) = Some [[2, 3], [1, 2, 3], [1, 2]] \<and>
   map_option (work_loads \<circ> snd \<circ> snd)
     (yield_file 0 example_env None (example_file\<lparr>dc_id := 2\<rparr>) 0 1 2 3 3
        example_clients example_state) = Some (work_loads example_state) \<and>
   concat (expected_yields 1 2 3 [[1, 2, 3], [1, 2, 3], [1, 2, 3]]) = [2, 3, 1, 2, 3, 1, 2] \<and>
   cdn_loop 3 example_env None 7 0 [1] [2] [0, 0, 0, 0, 0, 0, 0, 0] 1 2 3 3 1 0 [] example_state
     = Some (None, [[5, 6], [4, 5, 6], [4, 5]],
             example_state\<lparr>calls := cdn_calls 7 0 0 3 3\<rparr>)"
proof -
  let ?fid = "example_file\<lparr>dc_id := 2\<rparr>"
  let ?chunks = "[[1, 2, 3], [1, 2, 3], [1, 2, 3]] :: bytes list"
  let ?cc = "[[4, 5, 6], [4, 5, 6], [4, 5, 6]] :: bytes list"
  let ?iv = "[0, 0, 0, 0, 0, 0, 0, 0] :: bytes"
  let ?s0 = "example_state\<lparr>work_loads := dict_set (work_loads example_state) (index ?fid) (1 + 1)\<rparr>"
  let ?s1 = "snd (generate_media_session example_env 1 ?fid ?s0)"
  have mc: "example_clients (index ?fid) = Some 1"
    by (simp add: example_clients_def example_file_def)
  have w: "dict_get (work_loads example_state) (index ?fid) = Some 1"
    by (simp add: dict_get_def example_state_def example_file_def)
  have "fst (generate_media_session example_env 1 ?fid ?s0) = Inr 0"
    by (simp add: generate_media_session_def drop_disconnected_def create_media_session_def
          new_session_def session_start_def register_media_session_def example_env_def
          example_state_def example_file_def logged_def now_def)
  then have g: "generate_media_session example_env 1 ?fid ?s0 = (Inr 0, ?s1)"
    by (metis prod.collapse)
  have fetch: "\<forall>k<length ?chunks.
        env_get_file example_env (now ?s1 + k) (get_location example_env ?fid) (0 + int k * 3) 3
          = Inr (File (?chunks ! k)) \<and> ?chunks ! k \<noteq> []"
    by (auto simp: example_env_def nth_Cons' )
  have ey: "expected_yields 1 2 3 ?chunks = [[2, 3], [1, 2, 3], [1, 2]]"
    by (simp add: expected_yields_def slice_policy_def py_slice_def py_clamp_def)
  have ec: "expected_yields 1 2 3 ?cc = [[5, 6], [4, 5, 6], [4, 5]]"
    by (simp add: expected_yields_def slice_policy_def py_slice_def py_clamp_def)
  have pre: "example_clients (index ?fid) = Some 1 \<and>
    dict_get (work_loads example_state) (index ?fid) = Some 1 \<and>
    generate_media_session example_env 1 ?fid ?s0 = (Inr 0, ?s1) \<and>
    (1::int) \<le> 3 \<and> length ?chunks = nat 3 \<and>
    (\<forall>k<length ?chunks.
        env_get_file example_env (now ?s1 + k) (get_location example_env ?fid) (0 + int k * 3) 3
          = Inr (File (?chunks ! k)) \<and> ?chunks ! k \<noteq> [])"
    using mc w g fetch by simp
  have y: "yield_file 0 example_env None ?fid 0 1 2 3 3 example_clients example_state =
        Some (None, expected_yields 1 2 3 ?chunks,
              ?s1\<lparr>calls := calls ?s1 @ fetch_calls 0 0 3 (length ?chunks),
                  work_loads := work_loads example_state\<rparr>)"
    using pre stream_yields_sliced_parts[where mc = example_clients and fid = ?fid and cl = 1
        and s = example_state and w = 1 and ev = example_env and ms = 0 and ?s1.0 = ?s1
        and pc = 3 and chunks = ?chunks and offset = 0 and cs = 3 and fuel = 0 and fc = 1
        and lc = 2, THEN conjunct1]
    by blast
  have cat: "concat (expected_yields 1 2 3 ?chunks) =
        py_slice (Some 1) None (hd ?chunks) @ concat (butlast (tl ?chunks))
          @ py_slice None (Some 2) (last ?chunks)"
    using stream_yields_sliced_parts[where pc = 3 and chunks = ?chunks and fc = 1 and lc = 2,
        THEN conjunct2, THEN conjunct2, THEN conjunct2, THEN conjunct1]
    by simp
  have parts: "\<forall>k<length ?cc.
      cdn_part example_env (now example_state) [1] [2] ?iv 0 3 k = Some (?cc ! k) \<and> ?cc ! k \<noteq> []"
    by (auto simp: cdn_part_def cdn_iv_def to_bytes4_def py_slice_def py_clamp_def
          example_env_def less_Suc_eq)
  have cpre: "(1::int) \<le> 3 \<and> length ?cc = nat 3 \<and>
     (\<forall>k<length ?cc.
      cdn_part example_env (now example_state) [1] [2] ?iv 0 3 k = Some (?cc ! k) \<and> ?cc ! k \<noteq> [])"
    using parts by simp
  have cdn: "cdn_loop (length ?cc + 0) example_env None 7 0 [1] [2] ?iv 1 2 3 3 1 0 [] example_state =
        Some (None, expected_yields 1 2 3 ?cc,
              example_state\<lparr>calls := calls example_state @ cdn_calls 7 0 0 3 (length ?cc)\<rparr>)"
    using cpre stream_yields_sliced_parts[where pc = 3 and chunks = ?cc and ev = example_env
        and st = example_state and token = "[1]" and key = "[2]" and iv = ?iv and offset = 0
        and cs = 3 and extra = 0 and ms = 7 and csn = 0 and fc = 1 and lc = 2,
        THEN conjunct2, THEN conjunct2, THEN conjunct2, THEN conjunct2, THEN conjunct1]
    by blast
  have three: "length ?cc + 0 = 3" by simp
  show ?thesis using y cat cdn unfolding ey ec three
    by (simp add: example_state_def py_slice_def py_clamp_def numeral_3_eq_3)
qed


section \<open>Interleaved resolutions and session requests\<close>

lemma resolve_sequential:
  "interleave (resolve_step ev db_id mc) [True, True] (ResolveStart, b, s) =
     (ResolveDone (fst (get_file_properties ev db_id mc s)), b,
      snd (get_file_properties ev db_id mc s))"
  by (auto simp: resolve_step_def get_file_properties_def generate_file_properties_def
        get_file_ids_def cache_read_def cached_logged
        split: sum.splits option.splits prod.splits)

lemma session_sequential:
  "interleave (session_step ev cl fid) [True, True] (SessionStart, b, s) =
     (SessionDone (fst (generate_media_session ev cl fid s)), b,
      snd (generate_media_session ev cl fid s))"
  by (auto simp: session_step_def generate_media_session_def split: option.splits prod.splits)


lemma import_loop_Inr:
  "import_loop n ev dc sid s = (Inr u, s1) \<Longrightarrow>
   sessions s1 = sessions s \<and> clients s1 = clients s \<and> next_session s1 = next_session s"
proof (induction n arbitrary: s u)
  case 0
  then show ?case by simp
next
  case (Suc n)
  from Suc.prems show ?case
    by (auto simp: export_authorization_def import_authorization_def logged_def
          split: sum.splits if_splits dest!: Suc.IH)
qed

lemma create_media_session_Inr:
  assumes "create_media_session ev cl dc s = (Inr sid, s1)"
  shows "sid = next_session s \<and> next_session s1 = Suc (next_session s) \<and>
         media_sessions (clients s1 cl) dc = Some sid \<and> is_started (sessions s1 sid)"
proof (cases "dc \<noteq> home_dc (clients s cl)")
  case True
  let ?s1 = "logged (CallAuthCreate dc) s"
  let ?s2 = "snd (new_session dc False ?s1)"
  let ?s3 = "snd (session_start ev (next_session s) ?s2)"
  from assms True obtain u s4 where
    st: "fst (session_start ev (next_session s) ?s2) = Inr ()"
    and il: "import_loop 6 ev dc (next_session s) ?s3 = (Inr u, s4)"
    and res: "sid = next_session s" "s1 = register_media_session cl dc (next_session s) s4"
    by (auto simp: create_media_session_def auth_create_def new_session_def logged_def
          split: sum.splits prod.splits)
  from import_loop_Inr[OF il] have
    k: "sessions s4 = sessions ?s3" "clients s4 = clients ?s3" "next_session s4 = next_session ?s3"
    by auto
  have s3: "is_started (sessions ?s3 (next_session s))" "next_session ?s3 = Suc (next_session s)"
    using st by (auto simp: session_start_def new_session_def logged_def split: sum.splits)
  show ?thesis using res k s3 by (simp add: register_media_session_def)
next
  case False
  from assms False show ?thesis
    by (auto simp: create_media_session_def new_session_def session_start_def logged_def
          register_media_session_def split: sum.splits prod.splits)
qed

lemma resolve_race:
  assumes "cached_file_ids s db_id = None" "py_min_key (work_loads s) = Inr i" "mc i = Some cl"
    and "env_get_file_ids ev (now s) cl db_id i = Inr f"
    and "env_get_file_ids ev (Suc (now s)) cl db_id i = Inr f'"
  shows "interleave (resolve_step ev db_id mc) [True, False, True, False]
           (ResolveStart, ResolveStart, s) =
         (ResolveDone (Inr f), ResolveDone (Inr f'),
          (logged (CallGetFileIds cl db_id) (logged (CallGetFileIds cl db_id) s))
            \<lparr>cached_file_ids := (cached_file_ids s)(db_id \<mapsto> f')\<rparr>)"
  using assms
  by (simp add: resolve_step_def cache_read_def logged_def now_def)

lemma resolve_in_turn:
  assumes "cached_file_ids s db_id = None" "py_min_key (work_loads s) = Inr i" "mc i = Some cl"
    and "env_get_file_ids ev (now s) cl db_id i = Inr f"
  shows "interleave (resolve_step ev db_id mc) [True, True, False, False]
           (ResolveStart, ResolveStart, s) =
         (ResolveDone (Inr f), ResolveDone (Inr f),
          (logged (CallGetFileIds cl db_id) s)
            \<lparr>cached_file_ids := (cached_file_ids s)(db_id \<mapsto> f)\<rparr>)"
  using assms
  by (simp add: resolve_step_def cache_read_def cached_logged logged_def)

lemma session_in_turn:
  assumes "media_sessions (clients s c) (dc_id fid) = None"
    and "create_media_session ev c (dc_id fid) s = (Inr sid, s1)"
  shows "interleave (session_step ev c fid) [True, True, False, False]
           (SessionStart, SessionStart, s) = (SessionDone (Inr sid), SessionDone (Inr sid), s1)"
proof -
  from create_media_session_Inr[OF assms(2)]
  have a: "media_sessions (clients s1 c) (dc_id fid) = Some sid" "is_started (sessions s1 sid)"
    by auto
  show ?thesis using assms a by (simp add: session_step_def drop_disconnected_def)
qed

lemma session_race:
  assumes "media_sessions (clients s c) (dc_id fid) = None"
    and "create_media_session ev c (dc_id fid) s = (Inr sid, s1)"
    and "create_media_session ev c (dc_id fid) s1 = (Inr sid', s2)"
  shows "interleave (session_step ev c fid) [True, False, True, False]
           (SessionStart, SessionStart, s) = (SessionDone (Inr sid), SessionDone (Inr sid'), s2)"
    and "sid' \<noteq> sid" and "media_sessions (clients s2 c) (dc_id fid) = Some sid'"
proof -
  show "interleave (session_step ev c fid) [True, False, True, False]
           (SessionStart, SessionStart, s) = (SessionDone (Inr sid), SessionDone (Inr sid'), s2)"
    using assms by (simp add: session_step_def drop_disconnected_def)
  show "sid' \<noteq> sid"
    using create_media_session_Inr[OF assms(2)] create_media_session_Inr[OF assms(3)] by simp
  show "media_sessions (clients s2 c) (dc_id fid) = Some sid'"
    using create_media_session_Inr[OF assms(3)] by simp
qed

text \<open>
  C9. Nothing serialises cache population or session creation. Two
  resolutions of the same id that run in turn issue one lookup, the second being a cache
  hit, and two that both test the cache before either has stored its result both issue
  the lookup, the later store replacing the earlier. Two requests for the same
  connection and data center that run in turn create one session, the second finding it
  in the table, and two that both read the table before either has registered both
  create and register a session, the later registration replacing the earlier. A
  coroutine that runs without interleaving is the sequential function.
\<close>

theorem unserialised_population_and_creation:
  "(cached_file_ids s db_id = None \<and> py_min_key (work_loads s) = Inr i \<and> mc i = Some cl \<and>
    env_get_file_ids ev (now s) cl db_id i = Inr f \<longrightarrow>
      interleave (resolve_step ev db_id mc) [True, True, False, False]
          (ResolveStart, ResolveStart, s) =
        (ResolveDone (Inr f), ResolveDone (Inr f),
         (logged (CallGetFileIds cl db_id) s)
           \<lparr>cached_file_ids := (cached_file_ids s)(db_id \<mapsto> f)\<rparr>)) \<and>
   (cached_file_ids s db_id = None \<and> py_min_key (work_loads s) = Inr i \<and> mc i = Some cl \<and>
    env_get_file_ids ev (now s) cl db_id i = Inr f \<and>
    env_get_file_ids ev (Suc (now s)) cl db_id i = Inr f' \<longrightarrow>
      interleave (resolve_step ev db_id mc) [True, False, True, False]
          (ResolveStart, ResolveStart, s) =
        (ResolveDone (Inr f), ResolveDone (Inr f'),
         (logged (CallGetFileIds cl db_id) (logged (CallGetFileIds cl db_id) s))
           \<lparr>cached_file_ids := (cached_file_ids s)(db_id \<mapsto> f')\<rparr>)) \<and>
   (media_sessions (clients s c) (dc_id fid) = None \<and>
    create_media_session ev c (dc_id fid) s = (Inr sid, s1) \<longrightarrow>
      interleave (session_step ev c fid) [True, True, False, False]
          (SessionStart, SessionStart, s) =
        (SessionDone (Inr sid), SessionDone (Inr sid), s1)) \<and>
   (media_sessions (clients s c) (dc_id fid) = None \<and>
    create_media_session ev c (dc_id fid) s = (Inr sid, s1) \<and>
    create_media_session ev c (dc_id fid) s1 = (Inr sid', s2) \<longrightarrow>
      interleave (session_step ev c fid) [True, False, True, False]
          (SessionStart, SessionStart, s) =
        (SessionDone (Inr sid), SessionDone (Inr sid'), s2) \<and>
      sid' \<noteq> sid \<and> media_sessions (clients s2 c) (dc_id fid) = Some sid') \<and>
   interleave (resolve_step ev db_id mc) [True, True] (ResolveStart, rb, s) =
     (ResolveDone (fst (get_file_properties ev db_id mc s)), rb,
      snd (get_file_properties ev db_id mc s)) \<and>
   interleave (session_step ev c fid) [True, True] (SessionStart, sb, s) =
     (SessionDone (fst (generate_media_session ev c fid s)), sb,
      snd (generate_media_session ev c fid s))"
proof (intro conjI impI)
  assume "cached_file_ids s db_id = None \<and> py_min_key (work_loads s) = Inr i \<and> mc i = Some cl \<and>
    env_get_file_ids ev (now s) cl db_id i = Inr f"
  then show "interleave (resolve_step ev db_id mc) [True, True, False, False]
          (ResolveStart, ResolveStart, s) =
        (ResolveDone (Inr f), ResolveDone (Inr f),
         (logged (CallGetFileIds cl db_id) s)
           \<lparr>cached_file_ids := (cached_file_ids s)(db_id \<mapsto> f)\<rparr>)"
    by (intro resolve_in_turn[where i = i]) auto
next
  assume "cached_file_ids s db_id = None \<and> py_min_key (work_loads s) = Inr i \<and> mc i = Some cl \<and>
    env_get_file_ids ev (now s) cl db_id i = Inr f \<and>
    env_get_file_ids ev (Suc (now s)) cl db_id i = Inr f'"
  then show "interleave (resolve_step ev db_id mc) [True, False, True, False]
          (ResolveStart, ResolveStart, s) =
        (ResolveDone (Inr f), ResolveDone (Inr f'),
         (logged (CallGetFileIds cl db_id) (logged (CallGetFileIds cl db_id) s))
           \<lparr>cached_file_ids := (cached_file_ids s)(db_id \<mapsto> f')\<rparr>)"
    by (intro resolve_race[where i = i]) auto
next
  assume "media_sessions (clients s c) (dc_id fid) = None \<and>
    create_media_session ev c (dc_id fid) s = (Inr sid, s1)"
  then show "interleave (session_step ev c fid) [True, True, False, False]
          (SessionStart, SessionStart, s) =
        (SessionDone (Inr sid), SessionDone (Inr sid), s1)"
    by (intro session_in_turn) auto
next
  assume a: "media_sessions (clients s c) (dc_id fid) = None \<and>
    create_media_session ev c (dc_id fid) s = (Inr sid, s1) \<and>
    create_media_session ev c (dc_id fid) s1 = (Inr sid', s2)"
  then show "interleave (session_step ev c fid) [True, False, True, False]
          (SessionStart, SessionStart, s) =
        (SessionDone (Inr sid), SessionDone (Inr sid'), s2)"
    by (intro session_race(1)) auto
  from a show "sid' \<noteq> sid" by (intro session_race(2)[where s = s and ?s1.0 = s1]) auto
  from a show "media_sessions (clients s2 c) (dc_id fid) = Some sid'"
    by (intro session_race(3)[where s = s and ?s1.0 = s1 and sid = sid]) auto
next
  show "interleave (resolve_step ev db_id mc) [True, True] (ResolveStart, rb, s) =
     (ResolveDone (fst (get_file_properties ev db_id mc s)), rb,
      snd (get_file_properties ev db_id mc s))"
    by (rule resolve_sequential)
next
  show "interleave (session_step ev c fid) [True, True] (SessionStart, sb, s) =
     (SessionDone (fst (generate_media_session ev c fid s)), sb,
      snd (generate_media_session ev c fid s))"
    by (rule session_sequential)
qed

theorem concurrent_requests_both_proceed:
  "calls (snd (snd (interleave (resolve_step example_env ''f1'' example_clients)
       [True, False, True, False] (ResolveStart, ResolveStart, example_state))))
     = [CallGetFileIds 1 ''f1'', CallGetFileIds 1 ''f1''] \<and>
   calls (snd (snd (interleave (session_step example_env 1 (example_file\<lparr>dc_id := 2\<rparr>))
       [True, False, True, False] (SessionStart, SessionStart, example_state))))
     = [CallSessionStart 0, CallSessionStart 1] \<and>
   next_session (snd (snd (interleave (session_step example_env 1 (example_file\<lparr>dc_id := 2\<rparr>))
       [True, False, True, False] (SessionStart, SessionStart, example_state)))) = 2"
  by (simp add: resolve_step_def session_step_def drop_disconnected_def
        create_media_session_def new_session_def session_start_def register_media_session_def
        cache_read_def example_env_def example_state_def example_clients_def example_file_def
        logged_def now_def)


theorem unserialised_population_and_creation_witness:
  "interleave (resolve_step example_env ''f1'' example_clients) [True, True, False, False]
       (ResolveStart, ResolveStart, example_state)
     = (ResolveDone (Inr example_file), ResolveDone (Inr example_file),
        example_state\<lparr>cached_file_ids := [''f1'' \<mapsto> example_file],
                       calls := [CallGetFileIds 1 ''f1'']\<rparr>) \<and>
   interleave (resolve_step example_env ''f1'' example_clients) [True, False, True, False]
       (ResolveStart, ResolveStart, example_state)
     = (ResolveDone (Inr example_file), ResolveDone (Inr example_file),
        example_state\<lparr>cached_file_ids := [''f1'' \<mapsto> example_file],
                       calls := [CallGetFileIds 1 ''f1'', CallGetFileIds 1 ''f1'']\<rparr>) \<and>
   fst (interleave (session_step example_env 1 (example_file\<lparr>dc_id := 2\<rparr>))
          [True, True, False, False] (SessionStart, SessionStart, example_state))
     = SessionDone (Inr 0) \<and>
   fst (snd (interleave (session_step example_env 1 (example_file\<lparr>dc_id := 2\<rparr>))
          [True, True, False, False] (SessionStart, SessionStart, example_state)))
     = SessionDone (Inr 0) \<and>
   fst (interleave (session_step example_env 1 (example_file\<lparr>dc_id := 2\<rparr>))
          [True, False, True, False] (SessionStart, SessionStart, example_state))
     = SessionDone (Inr 0) \<and>
   fst (snd (interleave (session_step example_env 1 (example_file\<lparr>dc_id := 2\<rparr>))
          [True, False, True, False] (SessionStart, SessionStart, example_state)))
     = SessionDone (Inr 1)"
proof -
  let ?fid = "example_file\<lparr>dc_id := 2\<rparr>"
  let ?s1 = "snd (create_media_session example_env 1 2 example_state)"
  let ?s2 = "snd (create_media_session example_env 1 2 ?s1)"
  have r: "cached_file_ids example_state ''f1'' = None \<and>
    py_min_key (work_loads example_state) = Inr 1 \<and> example_clients 1 = Some 1 \<and>
    env_get_file_ids example_env (now example_state) 1 ''f1'' 1 = Inr example_file \<and>
    env_get_file_ids example_env (Suc (now example_state)) 1 ''f1'' 1 = Inr example_file"
    by (simp add: example_state_def example_clients_def example_env_def example_file_def)
  note inst = unserialised_population_and_creation[where s = example_state and db_id = "''f1''"
      and i = 1 and mc = example_clients and cl = 1 and ev = example_env and f = example_file
      and f' = example_file and c = 1 and fid = ?fid and sid = 0 and ?s1.0 = ?s1
      and sid' = 1 and ?s2.0 = ?s2]
  have a: "interleave (resolve_step example_env ''f1'' example_clients) [True, True, False, False]
       (ResolveStart, ResolveStart, example_state)
     = (ResolveDone (Inr example_file), ResolveDone (Inr example_file),
        (logged (CallGetFileIds 1 ''f1'') example_state)
          \<lparr>cached_file_ids := (cached_file_ids example_state)(''f1'' \<mapsto> example_file)\<rparr>)"
    using r inst[THEN conjunct1] by blast
  have b: "interleave (resolve_step example_env ''f1'' example_clients) [True, False, True, False]
       (ResolveStart, ResolveStart, example_state)
     = (ResolveDone (Inr example_file), ResolveDone (Inr example_file),
        (logged (CallGetFileIds 1 ''f1'') (logged (CallGetFileIds 1 ''f1'') example_state))
          \<lparr>cached_file_ids := (cached_file_ids example_state)(''f1'' \<mapsto> example_file)\<rparr>)"
    using r inst[THEN conjunct2, THEN conjunct1] by blast
  have "fst (create_media_session example_env 1 2 example_state) = Inr 0"
    by (simp add: create_media_session_def new_session_def session_start_def
          register_media_session_def example_env_def example_state_def logged_def now_def)
  then have c1: "create_media_session example_env 1 2 example_state = (Inr 0, ?s1)"
    by (metis prod.collapse)
  have "fst (create_media_session example_env 1 2 ?s1) = Inr 1"
    by (simp add: create_media_session_def new_session_def session_start_def
          register_media_session_def example_env_def example_state_def logged_def now_def)
  then have c2: "create_media_session example_env 1 2 ?s1 = (Inr 1, ?s2)"
    by (metis prod.collapse)
  have t: "media_sessions (clients example_state 1) (dc_id ?fid) = None"
    by (simp add: example_state_def)
  have dc: "dc_id ?fid = 2" by simp
  have c: "interleave (session_step example_env 1 ?fid) [True, True, False, False]
          (SessionStart, SessionStart, example_state)
        = (SessionDone (Inr 0), SessionDone (Inr 0), ?s1)"
    using t c1 inst[THEN conjunct2, THEN conjunct2, THEN conjunct1] unfolding dc by blast
  have d: "interleave (session_step example_env 1 ?fid) [True, False, True, False]
          (SessionStart, SessionStart, example_state)
        = (SessionDone (Inr 0), SessionDone (Inr 1), ?s2)"
    using t c1 c2 inst[THEN conjunct2, THEN conjunct2, THEN conjunct2, THEN conjunct1]
    unfolding dc by blast
  show ?thesis unfolding a b c d by (simp add: logged_def example_state_def)
qed

end
